theory Spec2Isabelle
  imports Complex_Main "HOL-Library.Product_Lexorder"
begin

section \<open>Solar charge switch: the control loop of \<^verbatim>\<open>solar_charge_switch.py\<close>\<close>

text \<open>
  The development embeds the decision logic of the controller: threshold computation,
  the night window, the rolling window of power samples and one iteration of the main
  loop. Python floats (power readings, \<^verbatim>\<open>time.time()\<close> stamps, the electrical
  parameters) are modelled by exact reals, so rounding of the floating-point operations is
  not part of the model; Python integers are \<open>int\<close>. Exceptions are values of type
  \<open>error\<close>, returned on the left of a sum.
\<close>

subsection \<open>Configuration\<close>

datatype error = ValueError | TypeError | OverflowError | ZeroDivisionError
  | ImportError | SystemExit int

text \<open>The sections of \<^verbatim>\<open>config.json\<close> that the control loop reads.\<close>

record electrical_cfg =
  grid_voltage_v :: real
  max_current_a :: real
  safety_margin :: real
  hysteresis :: real

record sampling_cfg =
  window_s :: int
  sample_interval_s :: int
  require_stable_on_s :: int
  require_stable_off_s :: int
  min_on_time_s :: int

record night_cfg =
  enabled :: bool
  start_str :: string
  end_str :: string

record control_cfg =
  auto_mode :: bool
  manual_socket_state :: "bool option"

record config =
  electrical :: electrical_cfg
  sampling :: sampling_cfg
  night_mode :: night_cfg
  control :: control_cfg

subsection \<open>Thresholds\<close>

text \<open>Python's \<^verbatim>\<open>int(x)\<close> on a float truncates towards zero.\<close>

definition py_int :: "real \<Rightarrow> int" where
  "py_int x = (if 0 \<le> x then \<lfloor>x\<rfloor> else \<lceil>x\<rceil>)"

text \<open>
  \<^verbatim>\<open>calculate_thresholds\<close>: the ON threshold is the truncated product of voltage,
  current and safety margin; the OFF threshold is the truncated ON threshold scaled by
  \<open>1 - hysteresis\<close>. There is no check of the inputs.
\<close>

definition calculate_thresholds :: "electrical_cfg \<Rightarrow> int \<times> int" where
  "calculate_thresholds elec =
     (let on_threshold = py_int (grid_voltage_v elec * max_current_a elec * safety_margin elec);
          off_threshold = py_int (real_of_int on_threshold * (1 - hysteresis elec))
      in (on_threshold, off_threshold))"

subsection \<open>Time of day and the night window\<close>

text \<open>
  A \<^verbatim>\<open>datetime.time\<close> is its fields (hour, minute, second, microsecond); Python
  compares two naive times field by field in this order, which is the lexicographic
  order on the tuple.
\<close>

type_synonym tod = "nat \<times> nat \<times> nat \<times> nat"

text \<open>\<^verbatim>\<open>s.split(":")\<close>: the pieces between separators, empty pieces kept.\<close>

fun split_on :: "char \<Rightarrow> string \<Rightarrow> string list" where
  "split_on c [] = [[]]"
| "split_on c (x # xs) =
     (if x = c then [] # split_on c xs
      else (case split_on c xs of
              [] \<Rightarrow> [[x]]
            | w # ws \<Rightarrow> (x # w) # ws))"

text \<open>
  \<^verbatim>\<open>int(piece)\<close> on a string of ASCII characters: surrounding whitespace is
  stripped, one sign is allowed, then decimal digits, where single underscores may
  separate digits. Anything else raises \<^verbatim>\<open>ValueError\<close>.
\<close>

definition is_space :: "char \<Rightarrow> bool" where
  "is_space c = (c \<in> {CHR '' '', CHR 0x09, CHR 0x0A, CHR 0x0B, CHR 0x0C, CHR 0x0D,
                       CHR 0x1C, CHR 0x1D, CHR 0x1E, CHR 0x1F})"

definition strip :: "string \<Rightarrow> string" where
  "strip s = rev (dropWhile is_space (rev (dropWhile is_space s)))"

definition digit_val :: "char \<Rightarrow> nat option" where
  "digit_val c =
     (let code = (of_char c :: nat)
      in if 48 \<le> code \<and> code \<le> 57 then Some (code - 48) else None)"

fun after_digit :: "nat \<Rightarrow> string \<Rightarrow> nat option" where
  "after_digit acc [] = Some acc"
| "after_digit acc [c] =
     (case digit_val c of None \<Rightarrow> None | Some v \<Rightarrow> Some (10 * acc + v))"
| "after_digit acc (c # d # ds) =
     (if c = CHR ''_'' then
        (case digit_val d of None \<Rightarrow> None | Some v \<Rightarrow> after_digit (10 * acc + v) ds)
      else
        (case digit_val c of None \<Rightarrow> None | Some v \<Rightarrow> after_digit (10 * acc + v) (d # ds)))"

fun decimal :: "string \<Rightarrow> nat option" where
  "decimal [] = None"
| "decimal (c # cs) = (case digit_val c of None \<Rightarrow> None | Some v \<Rightarrow> after_digit v cs)"

definition int_of_str :: "string \<Rightarrow> error + int" where
  "int_of_str s =
     (case strip s of
        [] \<Rightarrow> Inl ValueError
      | c # cs \<Rightarrow>
          (if c = CHR ''-'' then
             (case decimal cs of None \<Rightarrow> Inl ValueError | Some n \<Rightarrow> Inr (- int n))
           else if c = CHR ''+'' then
             (case decimal cs of None \<Rightarrow> Inl ValueError | Some n \<Rightarrow> Inr (int n))
           else
             (case decimal (c # cs) of None \<Rightarrow> Inl ValueError | Some n \<Rightarrow> Inr (int n))))"

text \<open>\<^verbatim>\<open>map(int, pieces)\<close>, unpacked by the call: the first failure is raised.\<close>

fun map_int :: "string list \<Rightarrow> error + int list" where
  "map_int [] = Inr []"
| "map_int (p # ps) =
     (case int_of_str p of
        Inl e \<Rightarrow> Inl e
      | Inr n \<Rightarrow> (case map_int ps of Inl e \<Rightarrow> Inl e | Inr ns \<Rightarrow> Inr (n # ns)))"

text \<open>
  \<^verbatim>\<open>dtime(*args)\<close>, the constructor \<^verbatim>\<open>datetime.time(hour, minute, second,
  microsecond, tzinfo)\<close> with integer arguments: missing fields are 0; more than five
  positional arguments are a \<^verbatim>\<open>TypeError\<close>; a field that does not fit a C int is an
  \<^verbatim>\<open>OverflowError\<close>; a field out of range is a \<^verbatim>\<open>ValueError\<close>; an integer
  in the place of \<^verbatim>\<open>tzinfo\<close> is a \<^verbatim>\<open>TypeError\<close>.
\<close>

definition arg_or_zero :: "int list \<Rightarrow> nat \<Rightarrow> int" where
  "arg_or_zero args k = (if k < length args then args ! k else 0)"

definition fits_c_int :: "int \<Rightarrow> bool" where
  "fits_c_int n = (- 2147483648 \<le> n \<and> n \<le> 2147483647)"

definition dtime :: "int list \<Rightarrow> error + tod" where
  "dtime args =
     (let hour = arg_or_zero args 0; minute = arg_or_zero args 1;
          second = arg_or_zero args 2; microsecond = arg_or_zero args 3
      in if 5 < length args then Inl TypeError
         else if \<not> (fits_c_int hour \<and> fits_c_int minute \<and> fits_c_int second
                    \<and> fits_c_int microsecond) then Inl OverflowError
         else if \<not> (0 \<le> hour \<and> hour < 24 \<and> 0 \<le> minute \<and> minute < 60
                    \<and> 0 \<le> second \<and> second < 60
                    \<and> 0 \<le> microsecond \<and> microsecond < 1000000) then Inl ValueError
         else if length args = 5 then Inl TypeError
         else Inr (nat hour, nat minute, nat second, nat microsecond))"

text \<open>\<^verbatim>\<open>dtime(*map(int, s.split(":")))\<close>\<close>

definition parse_time :: "string \<Rightarrow> error + tod" where
  "parse_time s =
     (case map_int (split_on CHR '':'' s) of
        Inl e \<Rightarrow> Inl e
      | Inr args \<Rightarrow> dtime args)"

text \<open>
  \<^verbatim>\<open>is_night(now)\<close>, on the night section of the configuration and the time of day of
  \<^verbatim>\<open>now\<close>. The two strings are parsed only when the window is enabled.
\<close>

definition is_night :: "night_cfg \<Rightarrow> tod \<Rightarrow> error + bool" where
  "is_night night_config now_time =
     (if \<not> enabled night_config then Inr False
      else
        (case parse_time (start_str night_config) of
           Inl e \<Rightarrow> Inl e
         | Inr start_time \<Rightarrow>
             (case parse_time (end_str night_config) of
                Inl e \<Rightarrow> Inl e
              | Inr end_time \<Rightarrow>
                  (if start_time < end_time
                   then Inr (start_time \<le> now_time \<and> now_time < end_time)
                   else Inr (now_time \<ge> start_time \<or> now_time < end_time)))))"

subsection \<open>The rolling window\<close>

text \<open>
  \<^verbatim>\<open>deque(maxlen=n).append(x)\<close>: the element is added on the right and, when the
  deque is then longer than \<open>n\<close>, the leftmost element is discarded.
\<close>

definition deque_append :: "nat \<Rightarrow> real list \<Rightarrow> real \<Rightarrow> real list" where
  "deque_append n buf x = (let ys = buf @ [x] in if n < length ys then tl ys else ys)"

text \<open>
  \<^verbatim>\<open>statistics.mean\<close> and \<^verbatim>\<open>statistics.median\<close>. Both raise on empty data; the
  loop calls them only behind the test \<^verbatim>\<open>len(power_buffer) > 0\<close>, which \<open>observe\<close>
  repeats.
\<close>

definition mean :: "real list \<Rightarrow> real" where
  "mean xs = sum_list xs / real (length xs)"

definition median :: "real list \<Rightarrow> real" where
  "median xs =
     (let data = sort xs; n = length data
      in if n mod 2 = 1 then data ! (n div 2)
         else (data ! (n div 2 - 1) + data ! (n div 2)) / 2)"

text \<open>
  Lines 313 to 315 of the loop: append the sample, then take mean and median of the
  deque as it is now.
\<close>

definition observe :: "nat \<Rightarrow> real list \<Rightarrow> real \<Rightarrow> real list \<times> real \<times> real" where
  "observe n buf power_w =
     (let power_buffer = deque_append n buf power_w;
          avg_w = (if length power_buffer > 0 then mean power_buffer else power_w);
          med_w = (if length power_buffer > 0 then median power_buffer else power_w)
      in (power_buffer, avg_w, med_w))"

text \<open>
  \<^verbatim>\<open>buffer_size = window_s // sample_interval_s\<close> and the \<^verbatim>\<open>deque(maxlen=buffer_size)\<close>
  built from it: floor division raises on a zero divisor, the deque on a negative length.
\<close>

definition buffer_size :: "sampling_cfg \<Rightarrow> error + nat" where
  "buffer_size sc =
     (if sample_interval_s sc = 0 then Inl ZeroDivisionError
      else (let n = window_s sc div sample_interval_s sc
            in if n < 0 then Inl ValueError else Inr (nat n)))"

subsection \<open>One iteration of the main loop\<close>

text \<open>The variables of \<^verbatim>\<open>main\<close> that live across iterations.\<close>

record state =
  maxlen :: nat
  power_buffer :: "real list"
  stable_on_since :: "real option"
  stable_off_since :: "real option"
  last_switch_time :: "real option"
  socket_on :: bool

text \<open>
  What one iteration reads from outside: the time of day of \<^verbatim>\<open>datetime.now()\<close>, the
  configuration, the power reading (\<open>None\<close> when the read failed), the answer of
  \<^verbatim>\<open>set_hue_state\<close> to a requested state, and the value of \<^verbatim>\<open>time.time()\<close> at
  each of its call sites: in the minimum-on-time test (\<open>clock_guard\<close>), where a timer is
  started (\<open>clock_mark\<close>), where the elapsed time is tested (\<open>clock_check\<close>) and where
  the switch time is recorded (\<open>clock_switch\<close>). An iteration runs each site at most
  once.
\<close>

record env =
  now_time :: tod
  cfg :: config
  solaredge_power :: "real option"
  set_hue_state :: "bool \<Rightarrow> bool"
  clock_guard :: real
  clock_mark :: real
  clock_check :: real
  clock_switch :: real

text \<open>
  What one iteration does to the outside: the states requested from the socket, in
  order, and the row written to the CSV log (timestamp left out).
\<close>

record effects =
  requests :: "bool list"
  csv_row :: "(real \<times> real \<times> real \<times> bool \<times> bool) option"

definition no_effects :: effects where
  "no_effects = \<lparr>requests = [], csv_row = None\<rparr>"

text \<open>
  \<^verbatim>\<open>x or time.time()\<close> for a timer \<open>x\<close>: the timer itself when it is set and not
  zero (a float 0.0 is false in Python), the clock otherwise.
\<close>

definition or_clock :: "real option \<Rightarrow> real \<Rightarrow> real" where
  "or_clock x t = (case x of None \<Rightarrow> t | Some v \<Rightarrow> (if v = 0 then t else v))"

text \<open>
  The pattern shared by every switching site:
  \<^verbatim>\<open>if set_hue_state(hue, target): socket_on = target; last_switch_time = time.time()\<close>.
  It returns the state and the request made.
\<close>

definition switch :: "state \<Rightarrow> env \<Rightarrow> bool \<Rightarrow> state \<times> bool list" where
  "switch s e target =
     (if set_hue_state e target
      then (s\<lparr>socket_on := target, last_switch_time := Some (clock_switch e)\<rparr>, [target])
      else (s, [target]))"

text \<open>Lines 298 to 305: manual control, entered when auto mode is off and a manual state is set.\<close>

definition manual_control :: "state \<Rightarrow> env \<Rightarrow> bool \<Rightarrow> state \<times> bool list" where
  "manual_control s e manual_state =
     (if socket_on s \<noteq> manual_state then switch s e manual_state else (s, []))"

text \<open>Lines 326 to 332: the night branch.\<close>

definition night_control :: "state \<Rightarrow> env \<Rightarrow> state \<times> bool list" where
  "night_control s e = (if socket_on s then switch s e False else (s, []))"

text \<open>Lines 341 to 350: the socket is off.\<close>

definition auto_on :: "state \<Rightarrow> env \<Rightarrow> real \<Rightarrow> int \<Rightarrow> state \<times> bool list" where
  "auto_on s e avg_w power_threshold_on =
     (if avg_w \<ge> real_of_int power_threshold_on then
        (let since = or_clock (stable_on_since s) (clock_mark e);
             s1 = s\<lparr>stable_on_since := Some since\<rparr>
         in if clock_check e - since
                 \<ge> real_of_int (require_stable_on_s (sampling (cfg e)))
            then (let (s2, rs) = switch s1 e True
                  in (s2\<lparr>stable_on_since := None\<rparr>, rs))
            else (s1, []))
      else (s\<lparr>stable_on_since := None\<rparr>, []))"

text \<open>Lines 353 to 366: the socket is on.\<close>

definition can_turn_off :: "state \<Rightarrow> env \<Rightarrow> bool" where
  "can_turn_off s e =
     (case last_switch_time s of
        None \<Rightarrow> True
      | Some t \<Rightarrow> clock_guard e - t \<ge> real_of_int (min_on_time_s (sampling (cfg e))))"

definition auto_off :: "state \<Rightarrow> env \<Rightarrow> real \<Rightarrow> int \<Rightarrow> state \<times> bool list" where
  "auto_off s e avg_w power_threshold_off =
     (if avg_w \<le> real_of_int power_threshold_off \<and> can_turn_off s e then
        (let since = or_clock (stable_off_since s) (clock_mark e);
             s1 = s\<lparr>stable_off_since := Some since\<rparr>
         in if clock_check e - since
                 \<ge> real_of_int (require_stable_off_s (sampling (cfg e)))
            then (let (s2, rs) = switch s1 e False
                  in (s2\<lparr>stable_off_since := None\<rparr>, rs))
            else (s1, []))
      else (s\<lparr>stable_off_since := None\<rparr>, []))"

definition auto_control :: "state \<Rightarrow> env \<Rightarrow> real \<Rightarrow> state \<times> bool list" where
  "auto_control s e avg_w =
     (let (power_threshold_on, power_threshold_off) = calculate_thresholds (electrical (cfg e))
      in if \<not> socket_on s then auto_on s e avg_w power_threshold_on
         else auto_off s e avg_w power_threshold_off)"

text \<open>
  The body of \<^verbatim>\<open>while _running\<close>, lines 289 to 368, without the sleeps. The only
  exception it can raise on a well-typed configuration comes from \<open>is_night\<close>, which is
  called only in auto mode, after the sample was appended and logged.
\<close>

definition cycle :: "state \<Rightarrow> env \<Rightarrow> error + (state \<times> effects)" where
  "cycle s e =
     (let auto = auto_mode (control (cfg e));
          manual_state = manual_socket_state (control (cfg e))
      in if \<not> auto \<and> manual_state \<noteq> None then
           (case manual_state of
              Some m \<Rightarrow>
                (let (s', rs) = manual_control s e m
                 in Inr (s', \<lparr>requests = rs, csv_row = None\<rparr>))
            | None \<Rightarrow> Inr (s, no_effects))
         else
           (case solaredge_power e of
              None \<Rightarrow> Inr (s, no_effects)
            | Some power_w \<Rightarrow>
                (let (buf, avg_w, med_w) = observe (maxlen s) (power_buffer s) power_w;
                     row = Some (power_w, avg_w, med_w, socket_on s, auto);
                     s1 = s\<lparr>power_buffer := buf\<rparr>
                 in if auto then
                      (case is_night (night_mode (cfg e)) (now_time e) of
                         Inl err \<Rightarrow> Inl err
                       | Inr night \<Rightarrow>
                           (if night then
                              (let (s', rs) = night_control s1 e
                               in Inr (s', \<lparr>requests = rs, csv_row = row\<rparr>))
                            else
                              (let (s', rs) = auto_control s1 e avg_w
                               in Inr (s', \<lparr>requests = rs, csv_row = row\<rparr>))))
                    else Inr (s1, \<lparr>requests = [], csv_row = row\<rparr>))))"

text \<open>
  The loop over the iterations that run before the shutdown flag is seen, one \<open>env\<close>
  each; an exception ends the run.
\<close>

fun run :: "state \<Rightarrow> env list \<Rightarrow> error + (state \<times> effects list)" where
  "run s [] = Inr (s, [])"
| "run s (e # es) =
     (case cycle s e of
        Inl err \<Rightarrow> Inl err
      | Inr (s', out) \<Rightarrow>
          (case run s' es of
             Inl err \<Rightarrow> Inl err
           | Inr (s'', outs) \<Rightarrow> Inr (s'', out # outs)))"

subsection \<open>Startup\<close>

text \<open>
  \<^verbatim>\<open>load_config\<close> opens and parses \<^verbatim>\<open>config.json\<close>. The model takes what that
  attempt gives: no file, a file that is not JSON, another failure, or the parsed
  configuration. Each failure is logged and ends the process with
  \<^verbatim>\<open>sys.exit(1)\<close>; a parsed configuration is returned as it is.
\<close>

datatype config_file = FileNotFound | BadJson | OtherFailure | Parsed config

fun load_config :: "config_file \<Rightarrow> error + config" where
  "load_config FileNotFound = Inl (SystemExit 1)"
| "load_config BadJson = Inl (SystemExit 1)"
| "load_config OtherFailure = Inl (SystemExit 1)"
| "load_config (Parsed c) = Inr c"

text \<open>
  \<^verbatim>\<open>main\<close> up to the loop: load the configuration, compute the thresholds (they are
  only logged), size the deque, clear the timers and read the socket state
  (\<^verbatim>\<open>get_hue_state(hue) or False\<close>).
\<close>

definition startup :: "config_file \<Rightarrow> bool option \<Rightarrow> error + state" where
  "startup file hue_state =
     (case load_config file of
        Inl err \<Rightarrow> Inl err
      | Inr c \<Rightarrow>
          (let (power_threshold_on, power_threshold_off) = calculate_thresholds (electrical c)
           in case buffer_size (sampling c) of
                Inl err \<Rightarrow> Inl err
              | Inr n \<Rightarrow>
                  Inr \<lparr>maxlen = n, power_buffer = [], stable_on_since = None,
                       stable_off_since = None, last_switch_time = None,
                       socket_on = (case hue_state of None \<Rightarrow> False | Some b \<Rightarrow> b)\<rparr>))"

subsection \<open>A sample configuration\<close>

text \<open>
  A configuration with thresholds 2000 W and 1700 W, a window of three samples, 30 s of
  stable power before switching on, none before switching off, and a minimum on-time of
  300 s; the night window runs from 22:00 to 06:00. \<open>sample_env\<close> is an iteration at
  noon under a given configuration, power reading and actuator answer, in which every
  clock site reads the same time.
\<close>

definition sample_config :: config where
  "sample_config =
     \<lparr>electrical = \<lparr>grid_voltage_v = 250, max_current_a = 10,
                     safety_margin = 8 / 10, hysteresis = 15 / 100\<rparr>,
      sampling = \<lparr>window_s = 30, sample_interval_s = 10, require_stable_on_s = 30,
                   require_stable_off_s = 0, min_on_time_s = 300\<rparr>,
      night_mode = \<lparr>enabled = True, start_str = ''22:00'', end_str = ''06:00''\<rparr>,
      control = \<lparr>auto_mode = True, manual_socket_state = None\<rparr>\<rparr>"

definition sample_env :: "config \<Rightarrow> real option \<Rightarrow> bool \<Rightarrow> real \<Rightarrow> env" where
  "sample_env c reading ok t =
     \<lparr>now_time = (12, 0, 0, 0), cfg = c, solaredge_power = reading,
      set_hue_state = (\<lambda>target. ok),
      clock_guard = t, clock_mark = t, clock_check = t, clock_switch = t\<rparr>"

definition sample_state :: "real list \<Rightarrow> real option \<Rightarrow> real option \<Rightarrow> real option \<Rightarrow> bool \<Rightarrow> state" where
  "sample_state buf on_since off_since switched is_on =
     \<lparr>maxlen = 3, power_buffer = buf, stable_on_since = on_since,
      stable_off_since = off_since, last_switch_time = switched, socket_on = is_on\<rparr>"




subsection \<open>The import of the main module by \<^verbatim>\<open>web_app.py\<close>\<close>

text \<open>
  The names bound at the top level of \<^verbatim>\<open>solar_charge_switch.py\<close> once its body has
  run: the attributes every module has, the imported names, the four globals and the
  fifteen functions. The main guard at the end binds nothing.
\<close>

definition solar_charge_switch_names :: "string list" where
  "solar_charge_switch_names =
     [''__name__'', ''__doc__'', ''__package__'', ''__loader__'', ''__spec__'',
      ''__file__'', ''__cached__'', ''__builtins__'',
      ''time'', ''json'', ''csv'', ''logging'', ''signal'', ''sys'', ''os'', ''threading'',
      ''deque'', ''mean'', ''median'', ''datetime'', ''dtime'',
      ''Optional'', ''Tuple'', ''Dict'', ''Any'', ''Path'', ''requests'',
      ''CONFIG_FILE'', ''_config'', ''_config_lock'', ''_running'',
      ''load_config'', ''get_config'', ''save_config'', ''update_config'',
      ''setup_logging'', ''is_night'', ''hue_headers'', ''calculate_thresholds'',
      ''get_solaredge_power'', ''get_hue_state'', ''set_hue_state'',
      ''init_csv'', ''log_csv'', ''signal_handler'', ''main'']"

text \<open>The names that lines 21 to 25 of \<^verbatim>\<open>web_app.py\<close> import from it, in order.\<close>

definition web_app_imports :: "string list" where
  "web_app_imports =
     [''get_config'', ''save_config'', ''update_config'', ''load_config'',
      ''get_solaredge_power'', ''get_hue_state'', ''set_hue_state'',
      ''calculate_thresholds'', ''cleanup_old_logs'']"

text \<open>
  \<^verbatim>\<open>from m import a, b, ...\<close> for a module that is not a package: each name is looked
  up among the module's attributes, and the first one missing raises
  \<^verbatim>\<open>ImportError\<close>.
\<close>

fun import_from :: "string list \<Rightarrow> string list \<Rightarrow> error + unit" where
  "import_from module_names [] = Inr ()"
| "import_from module_names (n # ns) =
     (if n \<in> set module_names then import_from module_names ns else Inl ImportError)"

text \<open>The URL rules that the decorators of \<^verbatim>\<open>web_app.py\<close> register, with their methods.\<close>

definition web_app_routes :: "(string \<times> string) list" where
  "web_app_routes =
     [(''/'', ''GET''), (''/api/status'', ''GET''), (''/api/config'', ''GET''),
      (''/api/config'', ''POST''), (''/api/socket'', ''POST''),
      (''/api/auto_mode'', ''POST''), (''/api/logs'', ''GET''),
      (''/api/logs/cleanup'', ''POST'')]"

text \<open>
  Running the body of \<^verbatim>\<open>web_app.py\<close>: the standard-library imports succeed;
  \<^verbatim>\<open>flask\<close> is imported if it is installed; importing from
  \<^verbatim>\<open>solar_charge_switch\<close> first runs that module, which needs \<^verbatim>\<open>requests\<close>, and
  then looks the names up; only after that is the application created and are the routes
  registered. The result is the registered routes.
\<close>

definition load_web_app :: "bool \<Rightarrow> bool \<Rightarrow> error + (string \<times> string) list" where
  "load_web_app flask_installed requests_installed =
     (if \<not> flask_installed then Inl ImportError
      else if \<not> requests_installed then Inl ImportError
      else (case import_from solar_charge_switch_names web_app_imports of
              Inl e \<Rightarrow> Inl e
            | Inr u \<Rightarrow> Inr web_app_routes))"

text \<open>An endpoint can serve a request only if the module loaded and registered it.\<close>

definition endpoint_runs :: "bool \<Rightarrow> bool \<Rightarrow> string \<times> string \<Rightarrow> bool" where
  "endpoint_runs flask_installed requests_installed route =
     (case load_web_app flask_installed requests_installed of
        Inl e \<Rightarrow> False
      | Inr routes \<Rightarrow> route \<in> set routes)"

section \<open>Theorems\<close>

subsection \<open>The branches of one iteration\<close>

lemma sample_thresholds: "calculate_thresholds (electrical sample_config) = (2000, 1700)"
  by (simp add: sample_config_def calculate_thresholds_def py_int_def)

lemma sample_sections:
  "control sample_config = \<lparr>auto_mode = True, manual_socket_state = None\<rparr>"
  "sampling sample_config =
     \<lparr>window_s = 30, sample_interval_s = 10, require_stable_on_s = 30,
      require_stable_off_s = 0, min_on_time_s = 300\<rparr>"
  by (simp_all add: sample_config_def)

lemma sample_noon: "is_night (night_mode sample_config) (12, 0, 0, 0) = Inr False"
proof -
  have p22: "parse_time ''22:00'' = Inr (22, 0, 0, 0)" by code_simp
  have p06: "parse_time ''06:00'' = Inr (6, 0, 0, 0)" by code_simp
  show ?thesis by (simp add: sample_config_def is_night_def p22 p06)
qed

lemma sample_night: "is_night (night_mode sample_config) (23, 0, 0, 0) = Inr True"
proof -
  have p22: "parse_time ''22:00'' = Inr (22, 0, 0, 0)" by code_simp
  have p06: "parse_time ''06:00'' = Inr (6, 0, 0, 0)" by code_simp
  show ?thesis by (simp add: sample_config_def is_night_def p22 p06)
qed

lemma manual_control_requests:
  "snd (manual_control s e m) = [] \<or> snd (manual_control s e m) = [\<not> socket_on s]"
  by (auto simp add: manual_control_def switch_def)

lemma night_control_requests:
  "snd (night_control s e) = [] \<or> snd (night_control s e) = [\<not> socket_on s]"
  by (simp add: night_control_def switch_def)

lemma auto_on_requests:
  "snd (auto_on s e a t) = [] \<or> snd (auto_on s e a t) = [True]"
  by (simp add: auto_on_def switch_def Let_def)

lemma auto_off_requests:
  "snd (auto_off s e a t) = [] \<or> snd (auto_off s e a t) = [False]"
  by (simp add: auto_off_def switch_def Let_def)

lemma auto_control_requests:
  "snd (auto_control s e a) = [] \<or> snd (auto_control s e a) = [\<not> socket_on s]"
  using auto_on_requests [of s e a "fst (calculate_thresholds (electrical (cfg e)))"]
        auto_off_requests [of s e a "snd (calculate_thresholds (electrical (cfg e)))"]
  by (auto simp add: auto_control_def split: prod.splits)

lemma cycle_manual:
  assumes "\<not> auto_mode (control (cfg e))"
    and "manual_socket_state (control (cfg e)) = Some m"
  shows "cycle s e = Inr (fst (manual_control s e m),
                          \<lparr>requests = snd (manual_control s e m), csv_row = None\<rparr>)"
  using assms by (simp add: cycle_def Let_def split: prod.splits)

lemma cycle_no_sample:
  assumes "auto_mode (control (cfg e)) \<or> manual_socket_state (control (cfg e)) = None"
    and "solaredge_power e = None"
  shows "cycle s e = Inr (s, no_effects)"
  using assms by (auto simp add: cycle_def Let_def)

lemma cycle_idle:
  assumes "\<not> auto_mode (control (cfg e))"
    and "manual_socket_state (control (cfg e)) = None"
    and "solaredge_power e = Some p"
    and "observe (maxlen s) (power_buffer s) p = (buf, avg_w, med_w)"
  shows "cycle s e = Inr (s\<lparr>power_buffer := buf\<rparr>,
           \<lparr>requests = [], csv_row = Some (p, avg_w, med_w, socket_on s, False)\<rparr>)"
  using assms by (simp add: cycle_def Let_def)

lemma cycle_night:
  assumes "auto_mode (control (cfg e))"
    and "solaredge_power e = Some p"
    and "observe (maxlen s) (power_buffer s) p = (buf, avg_w, med_w)"
    and "is_night (night_mode (cfg e)) (now_time e) = Inr True"
  shows "cycle s e = Inr (fst (night_control (s\<lparr>power_buffer := buf\<rparr>) e),
           \<lparr>requests = snd (night_control (s\<lparr>power_buffer := buf\<rparr>) e),
            csv_row = Some (p, avg_w, med_w, socket_on s, True)\<rparr>)"
  using assms by (simp add: cycle_def Let_def split: prod.splits)

lemma cycle_automatic:
  assumes "auto_mode (control (cfg e))"
    and "solaredge_power e = Some p"
    and "observe (maxlen s) (power_buffer s) p = (buf, avg_w, med_w)"
    and "is_night (night_mode (cfg e)) (now_time e) = Inr False"
  shows "cycle s e = Inr (fst (auto_control (s\<lparr>power_buffer := buf\<rparr>) e avg_w),
           \<lparr>requests = snd (auto_control (s\<lparr>power_buffer := buf\<rparr>) e avg_w),
            csv_row = Some (p, avg_w, med_w, socket_on s, True)\<rparr>)"
  using assms by (simp add: cycle_def Let_def split: prod.splits)

lemma cycle_night_error:
  assumes "auto_mode (control (cfg e))"
    and "solaredge_power e = Some p"
    and "is_night (night_mode (cfg e)) (now_time e) = Inl err"
  shows "cycle s e = Inl err"
  using assms by (simp add: cycle_def Let_def split: prod.splits)

lemma cycle_requests:
  assumes "cycle s e = Inr (s', out)"
  shows "requests out = [] \<or> requests out = [\<not> socket_on s]"
proof (cases "\<not> auto_mode (control (cfg e)) \<and> manual_socket_state (control (cfg e)) \<noteq> None")
  case True
  then obtain m where m: "manual_socket_state (control (cfg e)) = Some m" by auto
  from True m assms cycle_manual [of e m s] manual_control_requests [of s e m]
  show ?thesis by auto
next
  case False
  then have nm: "auto_mode (control (cfg e)) \<or> manual_socket_state (control (cfg e)) = None"
    by auto
  show ?thesis
  proof (cases "solaredge_power e")
    case None
    with nm assms cycle_no_sample [of e s] show ?thesis by (auto simp add: no_effects_def)
  next
    case (Some p)
    obtain buf avg_w med_w
      where ob: "observe (maxlen s) (power_buffer s) p = (buf, avg_w, med_w)"
      by (cases "observe (maxlen s) (power_buffer s) p") auto
    show ?thesis
    proof (cases "auto_mode (control (cfg e))")
      case False
      with nm Some ob assms cycle_idle [of e p s buf avg_w med_w] show ?thesis by auto
    next
      case auto: True
      show ?thesis
      proof (cases "is_night (night_mode (cfg e)) (now_time e)")
        case (Inl err)
        with auto Some assms cycle_night_error [of e p err s] show ?thesis by simp
      next
        case (Inr night)
        show ?thesis
        proof (cases night)
          case True
          with Inr auto Some ob assms cycle_night [of e p s buf avg_w med_w]
            night_control_requests [of "s\<lparr>power_buffer := buf\<rparr>" e]
          show ?thesis by auto
        next
          case False
          with Inr auto Some ob assms cycle_automatic [of e p s buf avg_w med_w]
            auto_control_requests [of "s\<lparr>power_buffer := buf\<rparr>" e avg_w]
          show ?thesis by auto
        qed
      qed
    qed
  qed
qed

lemmas sample_eval = sample_env_def sample_state_def cycle_def observe_def deque_append_def
  mean_def median_def auto_control_def auto_on_def auto_off_def can_turn_off_def or_clock_def
  switch_def manual_control_def night_control_def sample_thresholds sample_noon
  sample_sections no_effects_def Let_def

subsection \<open>Properties of the controller\<close>




text \<open>
  C4. When the window is disabled \<open>is_night\<close> is false at every time. When it is
  enabled and both strings parse, the result is \<open>start \<le> now < end\<close> if
  \<open>start < end\<close>, and \<open>now \<ge> start \<or> now < end\<close> if \<open>start \<ge> end\<close>. For the
  window from 22:00 to 06:00 it is true at 23:59, 00:00 and 05:59 and false at 06:00 and
  21:59.
\<close>

theorem is_night_window:
  "(\<not> enabled nc \<longrightarrow> is_night nc now = Inr False)
   \<and> (enabled nc \<and> parse_time (start_str nc) = Inr start_time
        \<and> parse_time (end_str nc) = Inr end_time \<and> start_time < end_time
      \<longrightarrow> is_night nc now = Inr (start_time \<le> now \<and> now < end_time))
   \<and> (enabled nc \<and> parse_time (start_str nc) = Inr start_time
        \<and> parse_time (end_str nc) = Inr end_time \<and> start_time \<ge> end_time
      \<longrightarrow> is_night nc now = Inr (now \<ge> start_time \<or> now < end_time))
   \<and> is_night \<lparr>enabled = True, start_str = ''22:00'', end_str = ''06:00''\<rparr> (23, 59, 0, 0)
         = Inr True
   \<and> is_night \<lparr>enabled = True, start_str = ''22:00'', end_str = ''06:00''\<rparr> (0, 0, 0, 0)
         = Inr True
   \<and> is_night \<lparr>enabled = True, start_str = ''22:00'', end_str = ''06:00''\<rparr> (5, 59, 0, 0)
         = Inr True
   \<and> is_night \<lparr>enabled = True, start_str = ''22:00'', end_str = ''06:00''\<rparr> (6, 0, 0, 0)
         = Inr False
   \<and> is_night \<lparr>enabled = True, start_str = ''22:00'', end_str = ''06:00''\<rparr> (21, 59, 0, 0)
         = Inr False"
proof -
  have p22: "parse_time ''22:00'' = Inr (22, 0, 0, 0)" by code_simp
  have p06: "parse_time ''06:00'' = Inr (6, 0, 0, 0)" by code_simp
  have disabled: "\<not> enabled nc \<longrightarrow> is_night nc now = Inr False"
    by (simp add: is_night_def)
  have plain: "enabled nc \<and> parse_time (start_str nc) = Inr start_time
        \<and> parse_time (end_str nc) = Inr end_time \<and> start_time < end_time
      \<longrightarrow> is_night nc now = Inr (start_time \<le> now \<and> now < end_time)"
    by (simp add: is_night_def)
  have wrapped: "enabled nc \<and> parse_time (start_str nc) = Inr start_time
        \<and> parse_time (end_str nc) = Inr end_time \<and> start_time \<ge> end_time
      \<longrightarrow> is_night nc now = Inr (now \<ge> start_time \<or> now < end_time)"
    by (auto simp add: is_night_def)
  have examples:
    "is_night \<lparr>enabled = True, start_str = ''22:00'', end_str = ''06:00''\<rparr> (23, 59, 0, 0)
       = Inr True"
    "is_night \<lparr>enabled = True, start_str = ''22:00'', end_str = ''06:00''\<rparr> (0, 0, 0, 0)
       = Inr True"
    "is_night \<lparr>enabled = True, start_str = ''22:00'', end_str = ''06:00''\<rparr> (5, 59, 0, 0)
       = Inr True"
    "is_night \<lparr>enabled = True, start_str = ''22:00'', end_str = ''06:00''\<rparr> (6, 0, 0, 0)
       = Inr False"
    "is_night \<lparr>enabled = True, start_str = ''22:00'', end_str = ''06:00''\<rparr> (21, 59, 0, 0)
       = Inr False"
    by (simp_all add: is_night_def p22 p06)
  from disabled plain wrapped examples show ?thesis by blast
qed

theorem is_night_window_witness:
  "enabled \<lparr>enabled = True, start_str = ''08:30'', end_str = ''17:00''\<rparr>
   \<and> parse_time ''08:30'' = Inr (8, 30, 0, 0)
   \<and> parse_time ''17:00'' = Inr (17, 0, 0, 0)
   \<and> ((8, 30, 0, 0) :: tod) < (17, 0, 0, 0)
   \<and> is_night \<lparr>enabled = True, start_str = ''08:30'', end_str = ''17:00''\<rparr> (8, 30, 0, 0)
         = Inr True
   \<and> is_night \<lparr>enabled = True, start_str = ''08:30'', end_str = ''17:00''\<rparr> (17, 0, 0, 0)
         = Inr False
   \<and> is_night \<lparr>enabled = False, start_str = ''08:30'', end_str = ''17:00''\<rparr> (12, 0, 0, 0)
         = Inr False
   \<and> is_night \<lparr>enabled = True, start_str = ''17:00'', end_str = ''08:30''\<rparr> (8, 30, 0, 0)
         = Inr False
   \<and> is_night \<lparr>enabled = True, start_str = ''17:00'', end_str = ''08:30''\<rparr> (17, 0, 0, 0)
         = Inr True"
proof -
  have p1: "parse_time ''08:30'' = Inr (8, 30, 0, 0)" by code_simp
  have p2: "parse_time ''17:00'' = Inr (17, 0, 0, 0)" by code_simp
  let ?day = "\<lparr>enabled = True, start_str = ''08:30'', end_str = ''17:00''\<rparr>"
  let ?off = "\<lparr>enabled = False, start_str = ''08:30'', end_str = ''17:00''\<rparr>"
  let ?wrap = "\<lparr>enabled = True, start_str = ''17:00'', end_str = ''08:30''\<rparr>"
  have a: "is_night ?day (8, 30, 0, 0) = Inr True"
    using is_night_window [of ?day "(8, 30, 0, 0)" "(8, 30, 0, 0)" "(17, 0, 0, 0)"] p1 p2
    by simp
  have b: "is_night ?day (17, 0, 0, 0) = Inr False"
    using is_night_window [of ?day "(17, 0, 0, 0)" "(8, 30, 0, 0)" "(17, 0, 0, 0)"] p1 p2
    by simp
  have c: "is_night ?off (12, 0, 0, 0) = Inr False"
    using is_night_window [of ?off "(12, 0, 0, 0)"] by simp
  have d: "is_night ?wrap (8, 30, 0, 0) = Inr False"
    using is_night_window [of ?wrap "(8, 30, 0, 0)" "(17, 0, 0, 0)" "(8, 30, 0, 0)"] p1 p2
    by simp
  have e: "is_night ?wrap (17, 0, 0, 0) = Inr True"
    using is_night_window [of ?wrap "(17, 0, 0, 0)" "(17, 0, 0, 0)" "(8, 30, 0, 0)"] p1 p2
    by simp
  show ?thesis using a b c d e p1 p2 by simp
qed

text \<open>
  C7. An iteration that completes makes at most one request to the socket, and the
  request, if any, is for the opposite of the current socket state, so it never asks for
  both ON and OFF. The branches are tried in order: under manual control the only
  request is the manual state when it differs from the socket state; in auto mode at
  night the only request is OFF when the socket is on; the automatic ON and OFF
  evaluations are the two sides of the test on the socket state. (An iteration that
  raises does so inside \<open>is_night\<close>, before any switching site.)
\<close>

theorem cycle_at_most_one_request:
  assumes "cycle s e = Inr (s', out)"
  shows "length (requests out) \<le> 1
       \<and> (requests out = [] \<or> requests out = [\<not> socket_on s])
       \<and> \<not> (True \<in> set (requests out) \<and> False \<in> set (requests out))
       \<and> (\<not> auto_mode (control (cfg e)) \<and> manual_socket_state (control (cfg e)) = Some m
            \<longrightarrow> requests out = (if socket_on s \<noteq> m then [m] else []))
       \<and> (auto_mode (control (cfg e)) \<and> solaredge_power e \<noteq> None
            \<and> is_night (night_mode (cfg e)) (now_time e) = Inr True
            \<longrightarrow> requests out = (if socket_on s then [False] else []))"
proof -
  have one: "requests out = [] \<or> requests out = [\<not> socket_on s]"
    using assms by (rule cycle_requests)
  have manual: "\<not> auto_mode (control (cfg e)) \<and> manual_socket_state (control (cfg e)) = Some m
            \<longrightarrow> requests out = (if socket_on s \<noteq> m then [m] else [])"
    using assms cycle_manual [of e m s] by (auto simp add: manual_control_def switch_def)
  have night: "auto_mode (control (cfg e)) \<and> solaredge_power e \<noteq> None
            \<and> is_night (night_mode (cfg e)) (now_time e) = Inr True
            \<longrightarrow> requests out = (if socket_on s then [False] else [])"
  proof (intro impI, elim conjE)
    assume a: "auto_mode (control (cfg e))" and p: "solaredge_power e \<noteq> None"
      and n: "is_night (night_mode (cfg e)) (now_time e) = Inr True"
    from p obtain pw where pw: "solaredge_power e = Some pw" by auto
    obtain buf avg_w med_w
      where ob: "observe (maxlen s) (power_buffer s) pw = (buf, avg_w, med_w)"
      by (cases "observe (maxlen s) (power_buffer s) pw") auto
    from assms cycle_night [OF a pw ob n]
    show "requests out = (if socket_on s then [False] else [])"
      by (auto simp add: night_control_def switch_def)
  qed
  from one have len: "length (requests out) \<le> 1" by auto
  from one have excl: "\<not> (True \<in> set (requests out) \<and> False \<in> set (requests out))" by auto
  from len one excl manual night show ?thesis by blast
qed

theorem cycle_at_most_one_request_witness:
  "cycle (sample_state [2100, 2200, 2050] (Some 1000) None None False)
         (sample_env sample_config (Some 2100) True 1030)
     = Inr (sample_state [2200, 2050, 2100] None None (Some 1030) True,
            \<lparr>requests = [True], csv_row = Some (2100, 6350 / 3, 2100, False, True)\<rparr>)
   \<and> length [True] \<le> (1::nat)
   \<and> cycle (sample_state [] None None None False)
         (sample_env (sample_config\<lparr>control := \<lparr>auto_mode = False, manual_socket_state = Some True\<rparr>\<rparr>) None True 1000)
     = Inr (sample_state [] None None (Some 1000) True, \<lparr>requests = [True], csv_row = None\<rparr>)"
proof -
  let ?s = "sample_state [2100, 2200, 2050] (Some 1000) None None False"
  let ?e = "sample_env sample_config (Some 2100) True 1030"
  let ?s' = "sample_state [2200, 2050, 2100] None None (Some 1030) True"
  let ?out = "\<lparr>requests = [True], csv_row = Some (2100, 6350 / 3, 2100, False, True)\<rparr>"
  let ?m = "sample_state [] None None None False"
  let ?em = "sample_env (sample_config\<lparr>control := \<lparr>auto_mode = False, manual_socket_state = Some True\<rparr>\<rparr>) None True 1000"
  let ?m' = "sample_state [] None None (Some 1000) True"
  let ?outm = "\<lparr>requests = [True], csv_row = None\<rparr>"
  have c: "cycle ?s ?e = Inr (?s', ?out)" by (simp add: sample_eval)
  have cm: "cycle ?m ?em = Inr (?m', ?outm)" by (auto simp add: sample_eval)
  have "length (requests ?out) \<le> 1"
    using cycle_at_most_one_request [OF c] by blast
  moreover have "requests ?outm = (if socket_on ?m \<noteq> True then [True] else [])"
    using cycle_at_most_one_request [OF cm, of True] by (simp add: sample_env_def)
  ultimately show ?thesis using c cm by simp
qed

lemma auto_off_guarded:
  assumes "socket_on s" and "last_switch_time s = Some t"
    and "clock_guard e - t < real_of_int (min_on_time_s (sampling (cfg e)))"
  shows "auto_control s e avg_w = (s\<lparr>stable_off_since := None\<rparr>, [])"
  using assms
  by (simp add: auto_control_def auto_off_def can_turn_off_def split: prod.splits)

lemma cycle_guarded:
  assumes auto: "auto_mode (control (cfg e))"
    and day: "is_night (night_mode (cfg e)) (now_time e) = Inr False"
    and on: "socket_on s" and sw: "last_switch_time s = Some t"
    and guard: "clock_guard e - t < real_of_int (min_on_time_s (sampling (cfg e)))"
  shows "\<exists>s' out. cycle s e = Inr (s', out) \<and> requests out = []
            \<and> socket_on s' \<and> last_switch_time s' = Some t \<and> maxlen s' = maxlen s
            \<and> (solaredge_power e \<noteq> None \<longrightarrow> stable_off_since s' = None)"
proof (cases "solaredge_power e")
  case None
  with auto cycle_no_sample [of e s] on sw show ?thesis by (simp add: no_effects_def)
next
  case (Some p)
  obtain buf avg_w med_w
    where ob: "observe (maxlen s) (power_buffer s) p = (buf, avg_w, med_w)"
    by (cases "observe (maxlen s) (power_buffer s) p") auto
  have "auto_control (s\<lparr>power_buffer := buf\<rparr>) e avg_w
          = (s\<lparr>power_buffer := buf, stable_off_since := None\<rparr>, [])"
    using auto_off_guarded [of "s\<lparr>power_buffer := buf\<rparr>" t e avg_w] on sw guard by simp
  with cycle_automatic [OF auto Some ob day] on sw Some show ?thesis by simp
qed

lemma run_guarded:
  assumes "socket_on s" and "last_switch_time s = Some t"
    and "\<forall>e \<in> set es. auto_mode (control (cfg e))
           \<and> is_night (night_mode (cfg e)) (now_time e) = Inr False
           \<and> clock_guard e - t < real_of_int (min_on_time_s (sampling (cfg e)))"
  shows "\<exists>s' outs. run s es = Inr (s', outs) \<and> (\<forall>out \<in> set outs. requests out = [])
            \<and> socket_on s' \<and> last_switch_time s' = Some t"
  using assms
proof (induction es arbitrary: s)
  case Nil
  then show ?case by simp
next
  case (Cons e es)
  then have "\<exists>s1 out. cycle s e = Inr (s1, out) \<and> requests out = []
            \<and> socket_on s1 \<and> last_switch_time s1 = Some t \<and> maxlen s1 = maxlen s
            \<and> (solaredge_power e \<noteq> None \<longrightarrow> stable_off_since s1 = None)"
    using cycle_guarded [of e s t] by simp
  then obtain s1 out where c: "cycle s e = Inr (s1, out)" and r: "requests out = []"
    and on1: "socket_on s1" and sw1: "last_switch_time s1 = Some t" by blast
  from Cons.IH [OF on1 sw1] Cons.prems(3)
  obtain s' outs where rn: "run s1 es = Inr (s', outs)"
    and rs: "\<forall>out \<in> set outs. requests out = []"
    and fin: "socket_on s'" "last_switch_time s' = Some t" by auto
  from c rn have "run s (e # es) = Inr (s', out # outs)" by simp
  with r rs fin show ?case by simp
qed

lemma guarded_request_is_override:
  assumes on: "socket_on s" and sw: "last_switch_time s = Some t"
    and guard: "clock_guard e - t < real_of_int (min_on_time_s (sampling (cfg e)))"
    and c: "cycle s e = Inr (s1, out)" and r: "requests out \<noteq> []"
  shows "(\<not> auto_mode (control (cfg e)) \<and> manual_socket_state (control (cfg e)) = Some False)
       \<or> (auto_mode (control (cfg e))
           \<and> is_night (night_mode (cfg e)) (now_time e) = Inr True)"
proof (cases "auto_mode (control (cfg e))")
  case False
  show ?thesis
  proof (cases "manual_socket_state (control (cfg e))")
    case None
    show ?thesis
    proof (cases "solaredge_power e")
      case no_sample: None
      with None c r cycle_no_sample [of e s] show ?thesis by (auto simp add: no_effects_def)
    next
      case (Some p)
      obtain buf avg_w med_w
        where "observe (maxlen s) (power_buffer s) p = (buf, avg_w, med_w)"
        by (cases "observe (maxlen s) (power_buffer s) p") auto
      with False None Some c r cycle_idle [of e p s buf avg_w med_w] show ?thesis by auto
    qed
  next
    case (Some m)
    with False c r on cycle_manual [of e m s] show ?thesis
      by (auto simp add: manual_control_def split: if_splits)
  qed
next
  case auto: True
  show ?thesis
  proof (cases "is_night (night_mode (cfg e)) (now_time e)")
    case (Inl err)
    show ?thesis
    proof (cases "solaredge_power e")
      case None
      with auto c r cycle_no_sample [of e s] show ?thesis by (auto simp add: no_effects_def)
    next
      case (Some p)
      with auto Inl c cycle_night_error [of e p err s] show ?thesis by simp
    qed
  next
    case (Inr night)
    show ?thesis
    proof (cases night)
      case True
      with auto Inr show ?thesis by simp
    next
      case False
      with auto Inr on sw guard cycle_guarded [of e s t] c r show ?thesis by auto
    qed
  qed
qed

text \<open>
  C2, as amended. In an iteration that reaches the automatic OFF evaluation (auto mode,
  a power sample read, not night, socket on) while fewer than \<open>min_on_time_s\<close> seconds
  have passed since the last switch, no request is made and the stable-off timer is
  cleared, whatever the average power is. Over any run of automatic daytime iterations
  inside the guard window no request is made at all: with a minimum on-time of 300 s and
  a socket switched on at time 0, nothing is requested while the clock reads less than
  300, even with \<open>require_stable_off_s = 0\<close>. The guard does not cover the two
  branches that precede the threshold logic: in any iteration inside the guard window a
  request can only come from manual control asking for OFF or from the night cutoff,
  and the counterexample shows both switching the socket off 60 s after it was switched
  on.
\<close>

theorem min_on_time_guard:
  "(auto_mode (control (cfg e)) \<and> solaredge_power e = Some p
      \<and> is_night (night_mode (cfg e)) (now_time e) = Inr False
      \<and> socket_on s \<and> last_switch_time s = Some t
      \<and> clock_guard e - t < real_of_int (min_on_time_s (sampling (cfg e)))
    \<longrightarrow> (\<exists>s' out. cycle s e = Inr (s', out) \<and> requests out = []
            \<and> stable_off_since s' = None \<and> socket_on s' \<and> last_switch_time s' = Some t))
   \<and> (socket_on s \<and> last_switch_time s = Some t
      \<and> (\<forall>x \<in> set es. auto_mode (control (cfg x))
             \<and> is_night (night_mode (cfg x)) (now_time x) = Inr False
             \<and> clock_guard x - t < real_of_int (min_on_time_s (sampling (cfg x))))
    \<longrightarrow> (\<exists>s' outs. run s es = Inr (s', outs) \<and> (\<forall>out \<in> set outs. requests out = [])
            \<and> socket_on s' \<and> last_switch_time s' = Some t))
   \<and> (socket_on s \<and> last_switch_time s = Some t
      \<and> clock_guard e - t < real_of_int (min_on_time_s (sampling (cfg e)))
      \<and> cycle s e = Inr (s1, out1) \<and> requests out1 \<noteq> []
    \<longrightarrow> (\<not> auto_mode (control (cfg e))
            \<and> manual_socket_state (control (cfg e)) = Some False)
        \<or> (auto_mode (control (cfg e))
            \<and> is_night (night_mode (cfg e)) (now_time e) = Inr True))"
proof (intro conjI impI)
  assume h: "auto_mode (control (cfg e)) \<and> solaredge_power e = Some p
      \<and> is_night (night_mode (cfg e)) (now_time e) = Inr False
      \<and> socket_on s \<and> last_switch_time s = Some t
      \<and> clock_guard e - t < real_of_int (min_on_time_s (sampling (cfg e)))"
  then show "\<exists>s' out. cycle s e = Inr (s', out) \<and> requests out = []
            \<and> stable_off_since s' = None \<and> socket_on s' \<and> last_switch_time s' = Some t"
    using cycle_guarded [of e s t] by auto
next
  assume h: "socket_on s \<and> last_switch_time s = Some t
      \<and> (\<forall>x \<in> set es. auto_mode (control (cfg x))
             \<and> is_night (night_mode (cfg x)) (now_time x) = Inr False
             \<and> clock_guard x - t < real_of_int (min_on_time_s (sampling (cfg x))))"
  then show "\<exists>s' outs. run s es = Inr (s', outs) \<and> (\<forall>out \<in> set outs. requests out = [])
            \<and> socket_on s' \<and> last_switch_time s' = Some t"
    using run_guarded [of s t es] by blast
next
  assume h: "socket_on s \<and> last_switch_time s = Some t
      \<and> clock_guard e - t < real_of_int (min_on_time_s (sampling (cfg e)))
      \<and> cycle s e = Inr (s1, out1) \<and> requests out1 \<noteq> []"
  then show "(\<not> auto_mode (control (cfg e))
            \<and> manual_socket_state (control (cfg e)) = Some False)
        \<or> (auto_mode (control (cfg e))
            \<and> is_night (night_mode (cfg e)) (now_time e) = Inr True)"
    using guarded_request_is_override [of s t e s1 out1] by blast
qed

theorem min_on_time_guard_witness:
  "cycle (sample_state [2100] None None (Some 0) True) (sample_env sample_config (Some 100) True 60)
     = Inr (sample_state [2100, 100] None None (Some 0) True,
            \<lparr>requests = [], csv_row = Some (100, 1100, 1100, True, True)\<rparr>)
   \<and> (60::real) - 0 < 300
   \<and> run (sample_state [2100] None None (Some 0) True)
         [sample_env sample_config (Some 100) True 60,
          sample_env sample_config (Some 0) True 299]
     = Inr (sample_state [2100, 100, 0] None None (Some 0) True,
            [\<lparr>requests = [], csv_row = Some (100, 1100, 1100, True, True)\<rparr>,
             \<lparr>requests = [], csv_row = Some (0, 2200 / 3, 100, True, True)\<rparr>])
   \<and> cycle (sample_state [2100, 100, 0] None None (Some 0) True)
         (sample_env sample_config (Some 0) True 300)
     = Inr (sample_state [100, 0, 0] None None (Some 300) False,
            \<lparr>requests = [False], csv_row = Some (0, 100 / 3, 0, True, True)\<rparr>)
   \<and> cycle (sample_state [2100] None None (Some 0) True)
         ((sample_env sample_config (Some 100) True 60)\<lparr>now_time := (23, 0, 0, 0)\<rparr>)
     = Inr (sample_state [2100, 100] None None (Some 60) False,
            \<lparr>requests = [False], csv_row = Some (100, 1100, 1100, True, True)\<rparr>)
   \<and> is_night (night_mode sample_config) (23, 0, 0, 0) = Inr True"
proof -
  let ?n = "(sample_env sample_config (Some 100) True 60)\<lparr>now_time := (23, 0, 0, 0)\<rparr>"
  let ?dark = "sample_state [2100, 100] None None (Some 60) False"
  let ?cut = "\<lparr>requests = [False], csv_row = Some (100, 1100, 1100, True, True)\<rparr>"
  have cn: "cycle (sample_state [2100] None None (Some 0) True) ?n = Inr (?dark, ?cut)"
    by (simp add: sample_eval sample_night)
  have "socket_on (sample_state [2100] None None (Some 0) True)
      \<and> last_switch_time (sample_state [2100] None None (Some 0) True) = Some 0
      \<and> clock_guard ?n - 0 < real_of_int (min_on_time_s (sampling (cfg ?n)))
      \<and> cycle (sample_state [2100] None None (Some 0) True) ?n = Inr (?dark, ?cut)
      \<and> requests ?cut \<noteq> []"
    using cn by (simp add: sample_env_def sample_state_def sample_sections)
  with min_on_time_guard [of ?n 100 "sample_state [2100] None None (Some 0) True" 0 "[]"
         ?dark ?cut, THEN conjunct2, THEN conjunct2]
  have "(\<not> auto_mode (control (cfg ?n))
            \<and> manual_socket_state (control (cfg ?n)) = Some False)
        \<or> (auto_mode (control (cfg ?n))
            \<and> is_night (night_mode (cfg ?n)) (now_time ?n) = Inr True)"
    by (rule mp)
  then have night: "is_night (night_mode sample_config) (23, 0, 0, 0) = Inr True"
    by (simp add: sample_env_def sample_sections)
  let ?s = "sample_state [2100] None None (Some 0) True"
  let ?e = "sample_env sample_config (Some 100) True 60"
  let ?e2 = "sample_env sample_config (Some 0) True 299"
  let ?s1 = "sample_state [2100, 100] None None (Some 0) True"
  have pre: "auto_mode (control (cfg ?e)) \<and> solaredge_power ?e = Some 100
      \<and> is_night (night_mode (cfg ?e)) (now_time ?e) = Inr False
      \<and> socket_on ?s \<and> last_switch_time ?s = Some 0
      \<and> clock_guard ?e - 0 < real_of_int (min_on_time_s (sampling (cfg ?e)))"
    by (simp add: sample_env_def sample_state_def sample_sections sample_noon)
  have pre2: "socket_on ?s \<and> last_switch_time ?s = Some 0
      \<and> (\<forall>x \<in> set [?e, ?e2]. auto_mode (control (cfg x))
             \<and> is_night (night_mode (cfg x)) (now_time x) = Inr False
             \<and> clock_guard x - 0 < real_of_int (min_on_time_s (sampling (cfg x))))"
    by (simp add: sample_env_def sample_state_def sample_sections sample_noon)
  from pre min_on_time_guard [of ?e 100 ?s 0 "[]"]
  have "\<exists>s' out. cycle ?s ?e = Inr (s', out) \<and> requests out = []
            \<and> stable_off_since s' = None \<and> socket_on s' \<and> last_switch_time s' = Some 0"
    by blast
  moreover from pre2 min_on_time_guard [of ?e 100 ?s 0 "[?e, ?e2]"]
  have "\<exists>s' outs. run ?s [?e, ?e2] = Inr (s', outs) \<and> (\<forall>out \<in> set outs. requests out = [])
            \<and> socket_on s' \<and> last_switch_time s' = Some 0"
    by blast
  moreover have c1: "cycle ?s ?e = Inr (?s1,
            \<lparr>requests = [], csv_row = Some (100, 1100, 1100, True, True)\<rparr>)"
    by (simp add: sample_eval)
  moreover have c2: "cycle ?s1 ?e2 = Inr (sample_state [2100, 100, 0] None None (Some 0) True,
            \<lparr>requests = [], csv_row = Some (0, 2200 / 3, 100, True, True)\<rparr>)"
    by (simp add: sample_eval)
  moreover have "cycle (sample_state [2100, 100, 0] None None (Some 0) True)
         (sample_env sample_config (Some 0) True 300)
     = Inr (sample_state [100, 0, 0] None None (Some 300) False,
            \<lparr>requests = [False], csv_row = Some (0, 100 / 3, 0, True, True)\<rparr>)"
    by (simp add: sample_eval)
  ultimately show ?thesis using cn night by simp
qed

theorem min_on_time_ignored_counterexample:
  "socket_on (sample_state [2100] None None (Some 0) True)
   \<and> last_switch_time (sample_state [2100] None None (Some 0) True) = Some 0
   \<and> min_on_time_s (sampling sample_config) = 300
   \<and> require_stable_off_s (sampling sample_config) = 0
   \<and> (60 :: real) - 0 < 300
   \<and> cycle (sample_state [2100] None None (Some 0) True)
         ((sample_env sample_config (Some 100) True 60)\<lparr>now_time := (23, 0, 0, 0)\<rparr>)
     = Inr (sample_state [2100, 100] None None (Some 60) False,
            \<lparr>requests = [False], csv_row = Some (100, 1100, 1100, True, True)\<rparr>)
   \<and> cycle (sample_state [2100] None None (Some 0) True)
         (sample_env (sample_config\<lparr>control := \<lparr>auto_mode = False,
                                                 manual_socket_state = Some False\<rparr>\<rparr>)
                     (Some 100) True 60)
     = Inr (sample_state [2100] None None (Some 60) False,
            \<lparr>requests = [False], csv_row = None\<rparr>)"
proof -
  have night: "cycle (sample_state [2100] None None (Some 0) True)
         ((sample_env sample_config (Some 100) True 60)\<lparr>now_time := (23, 0, 0, 0)\<rparr>)
     = Inr (sample_state [2100, 100] None None (Some 60) False,
            \<lparr>requests = [False], csv_row = Some (100, 1100, 1100, True, True)\<rparr>)"
    by (simp add: sample_eval sample_night)
  have manual: "cycle (sample_state [2100] None None (Some 0) True)
         (sample_env (sample_config\<lparr>control := \<lparr>auto_mode = False,
                                                 manual_socket_state = Some False\<rparr>\<rparr>)
                     (Some 100) True 60)
     = Inr (sample_state [2100] None None (Some 60) False,
            \<lparr>requests = [False], csv_row = None\<rparr>)"
    by (auto simp add: sample_eval)
  show ?thesis using night manual by (simp add: sample_state_def sample_sections)
qed

lemma sample_startup:
  "startup (Parsed sample_config) (Some False) = Inr (sample_state [] None None None False)"
  by (simp add: startup_def sample_thresholds buffer_size_def sample_sections sample_state_def)

text \<open>
  C5, as amended. Under manual control (auto mode off, a manual state set that differs
  from the socket state) a successful switch sets the socket state to the manual state
  and records the switch time; the two debounce timers are left as they were. The
  counterexample starts a stable-on timer in auto mode and then switches manually: the
  timer is still set afterwards.
\<close>

theorem manual_switch_keeps_timers:
  assumes "\<not> auto_mode (control (cfg e))"
    and "manual_socket_state (control (cfg e)) = Some m"
    and "socket_on s \<noteq> m"
    and "set_hue_state e m"
  shows "cycle s e = Inr (s\<lparr>socket_on := m, last_switch_time := Some (clock_switch e)\<rparr>,
                          \<lparr>requests = [m], csv_row = None\<rparr>)
       \<and> (\<forall>s' out. cycle s e = Inr (s', out) \<longrightarrow>
             socket_on s' = m \<and> stable_on_since s' = stable_on_since s
             \<and> stable_off_since s' = stable_off_since s)"
proof -
  have "cycle s e = Inr (s\<lparr>socket_on := m, last_switch_time := Some (clock_switch e)\<rparr>,
                          \<lparr>requests = [m], csv_row = None\<rparr>)"
    using assms cycle_manual [of e m s] by (simp add: manual_control_def switch_def)
  then show ?thesis by simp
qed

theorem manual_switch_keeps_timers_witness:
  "cycle (sample_state [2100] (Some 1000) None None False)
         (sample_env (sample_config\<lparr>control := \<lparr>auto_mode = False,
                                                 manual_socket_state = Some True\<rparr>\<rparr>)
                     (Some 2100) True 1010)
     = Inr (sample_state [2100] (Some 1000) None (Some 1010) True,
            \<lparr>requests = [True], csv_row = None\<rparr>)"
proof -
  let ?s = "sample_state [2100] (Some 1000) None None False"
  let ?e = "sample_env (sample_config\<lparr>control := \<lparr>auto_mode = False,
                                                 manual_socket_state = Some True\<rparr>\<rparr>)
                     (Some 2100) True 1010"
  have "\<not> auto_mode (control (cfg ?e))" "manual_socket_state (control (cfg ?e)) = Some True"
    "socket_on ?s \<noteq> True" "set_hue_state ?e True"
    by (simp_all add: sample_env_def sample_state_def)
  from manual_switch_keeps_timers [OF this]
  show ?thesis by (simp add: sample_env_def sample_state_def)
qed

theorem manual_switch_clears_timers_counterexample:
  "startup (Parsed sample_config) (Some False) = Inr (sample_state [] None None None False)
   \<and> run (sample_state [] None None None False)
         [sample_env sample_config (Some 2100) True 1000,
          sample_env (sample_config\<lparr>control := \<lparr>auto_mode = False,
                                                  manual_socket_state = Some True\<rparr>\<rparr>)
                     (Some 2100) True 1010]
       = Inr (sample_state [2100] (Some 1000) None (Some 1010) True,
              [\<lparr>requests = [], csv_row = Some (2100, 2100, 2100, False, True)\<rparr>,
               \<lparr>requests = [True], csv_row = None\<rparr>])
   \<and> socket_on (sample_state [2100] (Some 1000) None (Some 1010) True)
   \<and> stable_on_since (sample_state [2100] (Some 1000) None (Some 1010) True) \<noteq> None"
proof -
  have c1: "cycle (sample_state [] None None None False)
              (sample_env sample_config (Some 2100) True 1000)
            = Inr (sample_state [2100] (Some 1000) None None False,
                   \<lparr>requests = [], csv_row = Some (2100, 2100, 2100, False, True)\<rparr>)"
    by (simp add: sample_eval)
  have c2: "cycle (sample_state [2100] (Some 1000) None None False)
              (sample_env (sample_config\<lparr>control := \<lparr>auto_mode = False,
                                                  manual_socket_state = Some True\<rparr>\<rparr>)
                     (Some 2100) True 1010)
            = Inr (sample_state [2100] (Some 1000) None (Some 1010) True,
                   \<lparr>requests = [True], csv_row = None\<rparr>)"
    by (auto simp add: sample_eval)
  show ?thesis using c1 c2 sample_startup by (simp add: sample_state_def)
qed

lemma auto_control_failed:
  assumes "snd (auto_control s e avg_w) = [b]" and "\<not> set_hue_state e b"
  shows "fst (auto_control s e avg_w)
           = (if socket_on s then s\<lparr>stable_off_since := None\<rparr>
              else s\<lparr>stable_on_since := None\<rparr>)"
proof (cases "socket_on s")
  case True
  with assms show ?thesis
    by (auto simp add: auto_control_def auto_off_def switch_def Let_def
             split: prod.splits if_splits)
next
  case False
  with assms show ?thesis
    by (auto simp add: auto_control_def auto_on_def switch_def Let_def
             split: prod.splits if_splits)
qed

text \<open>
  C1, as amended. When the automatic ON or OFF evaluation makes a request and the
  actuator reports failure, the socket state and the last switch time are not updated,
  but the timer of the evaluation that ran (stable-on when the socket is off, stable-off
  when it is on) is cleared all the same; the other timer is untouched. The
  counterexample accumulates 30 s of stable power, fails to switch on at 1030, and makes
  no request at 1040: the accumulated time is gone and the timer restarts there.
\<close>

theorem failed_actuation_clears_timer:
  assumes auto: "auto_mode (control (cfg e))"
    and sample: "solaredge_power e = Some p"
    and day: "is_night (night_mode (cfg e)) (now_time e) = Inr False"
    and fin: "cycle s e = Inr (s', out)"
    and req: "requests out = [b]"
    and failed: "\<not> set_hue_state e b"
  shows "socket_on s' = socket_on s \<and> last_switch_time s' = last_switch_time s
       \<and> (if socket_on s
          then stable_off_since s' = None \<and> stable_on_since s' = stable_on_since s
          else stable_on_since s' = None \<and> stable_off_since s' = stable_off_since s)"
proof -
  obtain buf avg_w med_w
    where ob: "observe (maxlen s) (power_buffer s) p = (buf, avg_w, med_w)"
    by (cases "observe (maxlen s) (power_buffer s) p") auto
  let ?s1 = "s\<lparr>power_buffer := buf\<rparr>"
  from cycle_automatic [OF auto sample ob day] fin
  have s': "s' = fst (auto_control ?s1 e avg_w)"
    and out: "requests out = snd (auto_control ?s1 e avg_w)" by auto
  from out req have "snd (auto_control ?s1 e avg_w) = [b]" by simp
  from auto_control_failed [OF this failed] s'
  show ?thesis by simp
qed

theorem failed_actuation_clears_timer_witness:
  "cycle (sample_state [2100, 2200, 2050] (Some 1000) None None False)
         (sample_env sample_config (Some 2100) False 1030)
     = Inr (sample_state [2200, 2050, 2100] None None None False,
            \<lparr>requests = [True], csv_row = Some (2100, 6350 / 3, 2100, False, True)\<rparr>)
   \<and> cycle (sample_state [100, 100, 100] None (Some 1000) None True)
         (sample_env sample_config (Some 100) False 1030)
     = Inr (sample_state [100, 100, 100] None None None True,
            \<lparr>requests = [False], csv_row = Some (100, 100, 100, True, True)\<rparr>)"
proof -
  let ?s = "sample_state [2100, 2200, 2050] (Some 1000) None None False"
  let ?e = "sample_env sample_config (Some 2100) False 1030"
  let ?s' = "sample_state [2200, 2050, 2100] None None None False"
  let ?out = "\<lparr>requests = [True], csv_row = Some (2100, 6350 / 3, 2100, False, True)\<rparr>"
  have hyps: "auto_mode (control (cfg ?e))" "solaredge_power ?e = Some 2100"
    "is_night (night_mode (cfg ?e)) (now_time ?e) = Inr False"
    by (simp_all add: sample_env_def sample_sections sample_noon)
  have c: "cycle ?s ?e = Inr (?s', ?out)" by (simp add: sample_eval)
  have r: "requests ?out = [True]" by simp
  have f: "\<not> set_hue_state ?e True" by (simp add: sample_env_def)
  from failed_actuation_clears_timer [OF hyps c r f]
  have "socket_on ?s' = socket_on ?s \<and> stable_on_since ?s' = None"
    by (simp add: sample_state_def)
  moreover have "cycle (sample_state [100, 100, 100] None (Some 1000) None True)
         (sample_env sample_config (Some 100) False 1030)
     = Inr (sample_state [100, 100, 100] None None None True,
            \<lparr>requests = [False], csv_row = Some (100, 100, 100, True, True)\<rparr>)"
    by (simp add: sample_eval)
  ultimately show ?thesis using c by simp
qed

theorem failed_actuation_keeps_timer_counterexample:
  "run (sample_state [] None None None False)
       [sample_env sample_config (Some 2100) True 1000,
        sample_env sample_config (Some 2200) True 1010,
        sample_env sample_config (Some 2050) True 1020,
        sample_env sample_config (Some 2100) False 1030,
        sample_env sample_config (Some 2100) True 1040]
     = Inr (sample_state [2050, 2100, 2100] (Some 1040) None None False,
            [\<lparr>requests = [], csv_row = Some (2100, 2100, 2100, False, True)\<rparr>,
             \<lparr>requests = [], csv_row = Some (2200, 2150, 2150, False, True)\<rparr>,
             \<lparr>requests = [], csv_row = Some (2050, 6350 / 3, 2100, False, True)\<rparr>,
             \<lparr>requests = [True], csv_row = Some (2100, 6350 / 3, 2100, False, True)\<rparr>,
             \<lparr>requests = [], csv_row = Some (2100, 6250 / 3, 2100, False, True)\<rparr>])
   \<and> cycle (sample_state [2100, 2200, 2050] (Some 1000) None None False)
           (sample_env sample_config (Some 2100) False 1030)
     = Inr (sample_state [2200, 2050, 2100] None None None False,
            \<lparr>requests = [True], csv_row = Some (2100, 6350 / 3, 2100, False, True)\<rparr>)
   \<and> stable_on_since (sample_state [2100, 2200, 2050] (Some 1000) None None False) = Some 1000
   \<and> stable_on_since (sample_state [2200, 2050, 2100] None None None False) = None"
proof -
  have c1: "cycle (sample_state [] None None None False)
              (sample_env sample_config (Some 2100) True 1000)
            = Inr (sample_state [2100] (Some 1000) None None False,
                   \<lparr>requests = [], csv_row = Some (2100, 2100, 2100, False, True)\<rparr>)"
    by (simp add: sample_eval)
  have c2: "cycle (sample_state [2100] (Some 1000) None None False)
              (sample_env sample_config (Some 2200) True 1010)
            = Inr (sample_state [2100, 2200] (Some 1000) None None False,
                   \<lparr>requests = [], csv_row = Some (2200, 2150, 2150, False, True)\<rparr>)"
    by (simp add: sample_eval)
  have c3: "cycle (sample_state [2100, 2200] (Some 1000) None None False)
              (sample_env sample_config (Some 2050) True 1020)
            = Inr (sample_state [2100, 2200, 2050] (Some 1000) None None False,
                   \<lparr>requests = [], csv_row = Some (2050, 6350 / 3, 2100, False, True)\<rparr>)"
    by (simp add: sample_eval)
  have c4: "cycle (sample_state [2100, 2200, 2050] (Some 1000) None None False)
              (sample_env sample_config (Some 2100) False 1030)
            = Inr (sample_state [2200, 2050, 2100] None None None False,
                   \<lparr>requests = [True], csv_row = Some (2100, 6350 / 3, 2100, False, True)\<rparr>)"
    by (simp add: sample_eval)
  have c5: "cycle (sample_state [2200, 2050, 2100] None None None False)
              (sample_env sample_config (Some 2100) True 1040)
            = Inr (sample_state [2050, 2100, 2100] (Some 1040) None None False,
                   \<lparr>requests = [], csv_row = Some (2100, 6250 / 3, 2100, False, True)\<rparr>)"
    by (simp add: sample_eval)
  show ?thesis using c1 c2 c3 c4 c5 by (simp add: sample_state_def)
qed

lemma cycle_auto_on:
  assumes auto: "auto_mode (control (cfg e))"
    and sample: "solaredge_power e = Some p"
    and day: "is_night (night_mode (cfg e)) (now_time e) = Inr False"
    and off: "\<not> socket_on s"
    and ob: "observe (maxlen s) (power_buffer s) p = (buf, avg_w, med_w)"
  shows "cycle s e = Inr (fst (auto_on (s\<lparr>power_buffer := buf\<rparr>) e avg_w
                                 (fst (calculate_thresholds (electrical (cfg e))))),
           \<lparr>requests = snd (auto_on (s\<lparr>power_buffer := buf\<rparr>) e avg_w
                                 (fst (calculate_thresholds (electrical (cfg e))))),
            csv_row = Some (p, avg_w, med_w, False, True)\<rparr>)"
  using cycle_automatic [OF auto sample ob day] off
  by (simp add: auto_control_def split: prod.splits)

lemma low_sample_restarts:
  assumes a1: "auto_mode (control (cfg e1))" and p1: "solaredge_power e1 = Some p1"
    and d1: "is_night (night_mode (cfg e1)) (now_time e1) = Inr False"
    and off: "\<not> socket_on s"
    and ob1: "observe (maxlen s) (power_buffer s) p1 = (buf1, avg1, med1)"
    and low: "avg1 < real_of_int (fst (calculate_thresholds (electrical (cfg e1))))"
    and a2: "auto_mode (control (cfg e2))" and p2: "solaredge_power e2 = Some p2"
    and d2: "is_night (night_mode (cfg e2)) (now_time e2) = Inr False"
    and ob2: "observe (maxlen s) buf1 p2 = (buf2, avg2, med2)"
    and high: "avg2 \<ge> real_of_int (fst (calculate_thresholds (electrical (cfg e2))))"
  shows "\<exists>s2 o1 o2. run s [e1, e2] = Inr (s2, [o1, o2]) \<and> requests o1 = []
          \<and> (clock_check e2 - clock_mark e2
                 \<ge> real_of_int (require_stable_on_s (sampling (cfg e2)))
              \<longrightarrow> requests o2 = [True])
          \<and> (clock_check e2 - clock_mark e2
                 < real_of_int (require_stable_on_s (sampling (cfg e2)))
              \<longrightarrow> requests o2 = [] \<and> stable_on_since s2 = Some (clock_mark e2))"
proof -
  let ?s1 = "s\<lparr>power_buffer := buf1, stable_on_since := None\<rparr>"
  let ?o1 = "\<lparr>requests = [], csv_row = Some (p1, avg1, med1, False, True)\<rparr>"
  have c1: "cycle s e1 = Inr (?s1, ?o1)"
    using cycle_auto_on [OF a1 p1 d1 off ob1] low by (simp add: auto_on_def)
  have off1: "\<not> socket_on ?s1" using off by simp
  have ob2': "observe (maxlen ?s1) (power_buffer ?s1) p2 = (buf2, avg2, med2)"
    using ob2 by simp
  let ?r = "auto_on (?s1\<lparr>power_buffer := buf2\<rparr>) e2 avg2
              (fst (calculate_thresholds (electrical (cfg e2))))"
  let ?o2 = "\<lparr>requests = snd ?r, csv_row = Some (p2, avg2, med2, False, True)\<rparr>"
  have c2: "cycle ?s1 e2 = Inr (fst ?r, ?o2)"
    using cycle_auto_on [OF a2 p2 d2 off1 ob2'] by simp
  have ready: "clock_check e2 - clock_mark e2
                 \<ge> real_of_int (require_stable_on_s (sampling (cfg e2)))
              \<longrightarrow> snd ?r = [True]"
    using high by (simp add: auto_on_def or_clock_def switch_def Let_def)
  have wait: "clock_check e2 - clock_mark e2
                 < real_of_int (require_stable_on_s (sampling (cfg e2)))
              \<longrightarrow> snd ?r = [] \<and> stable_on_since (fst ?r) = Some (clock_mark e2)"
    using high by (simp add: auto_on_def or_clock_def Let_def)
  have "run s [e1, e2] = Inr (fst ?r, [?o1, ?o2])"
    using c1 c2 by simp
  with ready wait show ?thesis by simp
qed

text \<open>
  C6. In the automatic ON evaluation (auto mode, a power sample read, not night, socket
  off): when the average is at or above the ON threshold the stable-on timer starts at
  the clock (if it was unset) or continues from its value, and ON is requested exactly
  when the time elapsed since then has reached \<open>require_stable_on_s\<close>; until then no
  request is made and the timer is kept. When the average is below the threshold no
  request is made and the timer is cleared, and a qualifying sample in the next
  iteration measures its elapsed time from that iteration's own clock, whatever had
  accumulated before. (A timer continues from its value when that value is not 0.0,
  which Python's \<^verbatim>\<open>or\<close> takes for unset; epoch time stamps are never 0.)
\<close>

theorem auto_on_debounce:
  "(auto_mode (control (cfg e)) \<and> solaredge_power e = Some p
      \<and> is_night (night_mode (cfg e)) (now_time e) = Inr False \<and> \<not> socket_on s
      \<and> observe (maxlen s) (power_buffer s) p = (buf, avg_w, med_w)
      \<and> calculate_thresholds (electrical (cfg e)) = (on_threshold, off_threshold)
      \<and> since = or_clock (stable_on_since s) (clock_mark e)
    \<longrightarrow> (\<exists>s' out. cycle s e = Inr (s', out)
          \<and> (avg_w \<ge> real_of_int on_threshold
               \<and> clock_check e - since \<ge> real_of_int (require_stable_on_s (sampling (cfg e)))
              \<longrightarrow> requests out = [True] \<and> stable_on_since s' = None)
          \<and> (avg_w \<ge> real_of_int on_threshold
               \<and> clock_check e - since < real_of_int (require_stable_on_s (sampling (cfg e)))
              \<longrightarrow> requests out = [] \<and> stable_on_since s' = Some since \<and> \<not> socket_on s')
          \<and> (avg_w < real_of_int on_threshold
              \<longrightarrow> requests out = [] \<and> stable_on_since s' = None \<and> \<not> socket_on s')))
   \<and> or_clock None now = now
   \<and> (started \<noteq> 0 \<longrightarrow> or_clock (Some started) now = started)
   \<and> (auto_mode (control (cfg e1)) \<and> solaredge_power e1 = Some p1
      \<and> is_night (night_mode (cfg e1)) (now_time e1) = Inr False \<and> \<not> socket_on s
      \<and> observe (maxlen s) (power_buffer s) p1 = (buf1, avg1, med1)
      \<and> avg1 < real_of_int (fst (calculate_thresholds (electrical (cfg e1))))
      \<and> auto_mode (control (cfg e2)) \<and> solaredge_power e2 = Some p2
      \<and> is_night (night_mode (cfg e2)) (now_time e2) = Inr False
      \<and> observe (maxlen s) buf1 p2 = (buf2, avg2, med2)
      \<and> avg2 \<ge> real_of_int (fst (calculate_thresholds (electrical (cfg e2))))
    \<longrightarrow> (\<exists>s2 o1 o2. run s [e1, e2] = Inr (s2, [o1, o2]) \<and> requests o1 = []
          \<and> (clock_check e2 - clock_mark e2
                 \<ge> real_of_int (require_stable_on_s (sampling (cfg e2)))
              \<longrightarrow> requests o2 = [True])
          \<and> (clock_check e2 - clock_mark e2
                 < real_of_int (require_stable_on_s (sampling (cfg e2)))
              \<longrightarrow> requests o2 = [] \<and> stable_on_since s2 = Some (clock_mark e2))))"
proof (intro conjI impI)
  assume h: "auto_mode (control (cfg e)) \<and> solaredge_power e = Some p
      \<and> is_night (night_mode (cfg e)) (now_time e) = Inr False \<and> \<not> socket_on s
      \<and> observe (maxlen s) (power_buffer s) p = (buf, avg_w, med_w)
      \<and> calculate_thresholds (electrical (cfg e)) = (on_threshold, off_threshold)
      \<and> since = or_clock (stable_on_since s) (clock_mark e)"
  let ?s1 = "s\<lparr>power_buffer := buf\<rparr>"
  let ?r = "auto_on ?s1 e avg_w on_threshold"
  from h cycle_auto_on [of e p s buf avg_w med_w]
  have c: "cycle s e = Inr (fst ?r, \<lparr>requests = snd ?r,
                                    csv_row = Some (p, avg_w, med_w, False, True)\<rparr>)"
    by simp
  have high_ready: "avg_w \<ge> real_of_int on_threshold
               \<and> clock_check e - since \<ge> real_of_int (require_stable_on_s (sampling (cfg e)))
              \<longrightarrow> snd ?r = [True] \<and> stable_on_since (fst ?r) = None"
    using h by (simp add: auto_on_def switch_def Let_def)
  have high_wait: "avg_w \<ge> real_of_int on_threshold
               \<and> clock_check e - since < real_of_int (require_stable_on_s (sampling (cfg e)))
              \<longrightarrow> snd ?r = [] \<and> stable_on_since (fst ?r) = Some since
                  \<and> \<not> socket_on (fst ?r)"
    using h by (simp add: auto_on_def Let_def)
  have low: "avg_w < real_of_int on_threshold
              \<longrightarrow> snd ?r = [] \<and> stable_on_since (fst ?r) = None \<and> \<not> socket_on (fst ?r)"
    using h by (simp add: auto_on_def)
  from c high_ready high_wait low
  show "\<exists>s' out. cycle s e = Inr (s', out)
          \<and> (avg_w \<ge> real_of_int on_threshold
               \<and> clock_check e - since \<ge> real_of_int (require_stable_on_s (sampling (cfg e)))
              \<longrightarrow> requests out = [True] \<and> stable_on_since s' = None)
          \<and> (avg_w \<ge> real_of_int on_threshold
               \<and> clock_check e - since < real_of_int (require_stable_on_s (sampling (cfg e)))
              \<longrightarrow> requests out = [] \<and> stable_on_since s' = Some since \<and> \<not> socket_on s')
          \<and> (avg_w < real_of_int on_threshold
              \<longrightarrow> requests out = [] \<and> stable_on_since s' = None \<and> \<not> socket_on s')"
    by simp
next
  show "or_clock None now = now" by (simp add: or_clock_def)
next
  assume "started \<noteq> 0"
  then show "or_clock (Some started) now = started" by (simp add: or_clock_def)
next
  assume h: "auto_mode (control (cfg e1)) \<and> solaredge_power e1 = Some p1
      \<and> is_night (night_mode (cfg e1)) (now_time e1) = Inr False \<and> \<not> socket_on s
      \<and> observe (maxlen s) (power_buffer s) p1 = (buf1, avg1, med1)
      \<and> avg1 < real_of_int (fst (calculate_thresholds (electrical (cfg e1))))
      \<and> auto_mode (control (cfg e2)) \<and> solaredge_power e2 = Some p2
      \<and> is_night (night_mode (cfg e2)) (now_time e2) = Inr False
      \<and> observe (maxlen s) buf1 p2 = (buf2, avg2, med2)
      \<and> avg2 \<ge> real_of_int (fst (calculate_thresholds (electrical (cfg e2))))"
  then show "\<exists>s2 o1 o2. run s [e1, e2] = Inr (s2, [o1, o2]) \<and> requests o1 = []
          \<and> (clock_check e2 - clock_mark e2
                 \<ge> real_of_int (require_stable_on_s (sampling (cfg e2)))
              \<longrightarrow> requests o2 = [True])
          \<and> (clock_check e2 - clock_mark e2
                 < real_of_int (require_stable_on_s (sampling (cfg e2)))
              \<longrightarrow> requests o2 = [] \<and> stable_on_since s2 = Some (clock_mark e2))"
    using low_sample_restarts [of e1 p1 s buf1 avg1 med1 e2 p2 buf2 avg2 med2] by blast
qed

theorem auto_on_debounce_witness:
  "run (sample_state [] None None None False)
       [sample_env sample_config (Some 2100) True 1000,
        sample_env sample_config (Some 2200) True 1010,
        sample_env sample_config (Some 2050) True 1020,
        sample_env sample_config (Some 2100) True 1030]
     = Inr (sample_state [2200, 2050, 2100] None None (Some 1030) True,
            [\<lparr>requests = [], csv_row = Some (2100, 2100, 2100, False, True)\<rparr>,
             \<lparr>requests = [], csv_row = Some (2200, 2150, 2150, False, True)\<rparr>,
             \<lparr>requests = [], csv_row = Some (2050, 6350 / 3, 2100, False, True)\<rparr>,
             \<lparr>requests = [True], csv_row = Some (2100, 6350 / 3, 2100, False, True)\<rparr>])
   \<and> run (sample_state [2100, 2200] (Some 1000) None None False)
       [sample_env sample_config (Some 100) True 1020,
        sample_env sample_config (Some 6000) True 1030]
     = Inr (sample_state [2200, 100, 6000] (Some 1030) None None False,
            [\<lparr>requests = [], csv_row = Some (100, 4400 / 3, 2100, False, True)\<rparr>,
             \<lparr>requests = [], csv_row = Some (6000, 8300 / 3, 2200, False, True)\<rparr>])"
proof -
  let ?s0 = "sample_state [] None None None False"
  let ?s1 = "sample_state [2100] (Some 1000) None None False"
  let ?s2 = "sample_state [2100, 2200] (Some 1000) None None False"
  let ?s3 = "sample_state [2100, 2200, 2050] (Some 1000) None None False"
  let ?e4 = "sample_env sample_config (Some 2100) True 1030"
  let ?lo = "sample_env sample_config (Some 100) True 1020"
  let ?hi = "sample_env sample_config (Some 6000) True 1030"
  have c1: "cycle ?s0 (sample_env sample_config (Some 2100) True 1000)
            = Inr (?s1, \<lparr>requests = [], csv_row = Some (2100, 2100, 2100, False, True)\<rparr>)"
    by (simp add: sample_eval)
  have c2: "cycle ?s1 (sample_env sample_config (Some 2200) True 1010)
            = Inr (?s2, \<lparr>requests = [], csv_row = Some (2200, 2150, 2150, False, True)\<rparr>)"
    by (simp add: sample_eval)
  have c3: "cycle ?s2 (sample_env sample_config (Some 2050) True 1020)
            = Inr (?s3, \<lparr>requests = [], csv_row = Some (2050, 6350 / 3, 2100, False, True)\<rparr>)"
    by (simp add: sample_eval)
  have c4: "cycle ?s3 ?e4
            = Inr (sample_state [2200, 2050, 2100] None None (Some 1030) True,
                   \<lparr>requests = [True], csv_row = Some (2100, 6350 / 3, 2100, False, True)\<rparr>)"
    by (simp add: sample_eval)
  have l1: "cycle ?s2 ?lo
            = Inr (sample_state [2100, 2200, 100] None None None False,
                   \<lparr>requests = [], csv_row = Some (100, 4400 / 3, 2100, False, True)\<rparr>)"
    by (simp add: sample_eval)
  have l2: "cycle (sample_state [2100, 2200, 100] None None None False) ?hi
            = Inr (sample_state [2200, 100, 6000] (Some 1030) None None False,
                   \<lparr>requests = [], csv_row = Some (6000, 8300 / 3, 2200, False, True)\<rparr>)"
    by (simp add: sample_eval)
  have hyp: "auto_mode (control (cfg ?e4)) \<and> solaredge_power ?e4 = Some 2100
      \<and> is_night (night_mode (cfg ?e4)) (now_time ?e4) = Inr False \<and> \<not> socket_on ?s3
      \<and> observe (maxlen ?s3) (power_buffer ?s3) 2100 = ([2200, 2050, 2100], 6350 / 3, 2100)
      \<and> calculate_thresholds (electrical (cfg ?e4)) = (2000, 1700)
      \<and> 1000 = or_clock (stable_on_since ?s3) (clock_mark ?e4)"
    by (simp add: sample_eval)
  have ready: "6350 / 3 \<ge> real_of_int 2000
      \<and> clock_check ?e4 - 1000 \<ge> real_of_int (require_stable_on_s (sampling (cfg ?e4)))"
    by (simp add: sample_env_def sample_sections)
  from hyp ready
    auto_on_debounce [of ?e4 2100 ?s3 "[2200, 2050, 2100]" "6350 / 3" 2100 2000 1700 1000]
  have "\<exists>s' out. cycle ?s3 ?e4 = Inr (s', out) \<and> requests out = [True]
          \<and> stable_on_since s' = None"
    by blast
  then show ?thesis using c1 c2 c3 c4 l1 l2 by simp
qed

lemma deque_append_length:
  "length buf \<le> n \<Longrightarrow> length (deque_append n buf x) \<le> n"
  by (simp add: deque_append_def Let_def)

lemma deque_append_drop:
  assumes "length buf \<le> n"
  shows "deque_append n buf x = drop (Suc (length buf) - n) (buf @ [x])"
proof (cases "length buf = n")
  case True
  then show ?thesis by (cases buf) (simp_all add: deque_append_def Let_def)
next
  case False
  with assms have "length buf < n" by simp
  then show ?thesis by (simp add: deque_append_def Let_def)
qed

lemma foldl_deque_append:
  "length buf \<le> n \<Longrightarrow>
     foldl (deque_append n) buf xs = drop (length buf + length xs - n) (buf @ xs)"
proof (induction xs arbitrary: buf)
  case Nil
  then show ?case by simp
next
  case (Cons x xs)
  let ?b = "deque_append n buf x"
  let ?k = "Suc (length buf) - n"
  have len: "length ?b \<le> n" using Cons.prems by (rule deque_append_length)
  have b: "?b = drop ?k (buf @ [x])"
    using Cons.prems by (rule deque_append_drop)
  have lb: "length ?b = Suc (length buf) - ?k"
    by (simp add: b)
  have step: "foldl (deque_append n) buf (x # xs) = drop (length ?b + length xs - n) (?b @ xs)"
    using Cons.IH [OF len] by simp
  have "drop ?k ((buf @ [x]) @ xs)
          = drop ?k (buf @ [x]) @ drop (?k - length (buf @ [x])) xs"
    by (rule drop_append)
  moreover have "?k - length (buf @ [x]) = 0" by simp
  ultimately have bx: "?b @ xs = drop ?k ((buf @ [x]) @ xs)"
    using b by simp
  have idx: "(length ?b + length xs - n) + ?k = length buf + length (x # xs) - n"
    using lb Cons.prems by (simp only: length_Cons; arith?)
  have "drop (length ?b + length xs - n) (?b @ xs)
          = drop (length ?b + length xs - n) (drop ?k ((buf @ [x]) @ xs))"
    by (simp only: bx)
  also have "\<dots> = drop ((length ?b + length xs - n) + ?k) ((buf @ [x]) @ xs)"
    by (simp only: drop_drop)
  also have "\<dots> = drop (length buf + length (x # xs) - n) ((buf @ [x]) @ xs)"
    by (simp only: idx)
  also have "\<dots> = drop (length buf + length (x # xs) - n) (buf @ x # xs)"
    by simp
  finally show ?case using step by simp
qed

lemma switch_keeps_buffer:
  "power_buffer (fst (switch s e b)) = power_buffer s \<and> maxlen (fst (switch s e b)) = maxlen s"
  by (simp add: switch_def)

lemma manual_control_keeps_buffer:
  "power_buffer (fst (manual_control s e m)) = power_buffer s
   \<and> maxlen (fst (manual_control s e m)) = maxlen s"
  by (simp add: manual_control_def switch_keeps_buffer)

lemma night_control_keeps_buffer:
  "power_buffer (fst (night_control s e)) = power_buffer s
   \<and> maxlen (fst (night_control s e)) = maxlen s"
  by (simp add: night_control_def switch_keeps_buffer)

lemma auto_control_keeps_buffer:
  "power_buffer (fst (auto_control s e a)) = power_buffer s
   \<and> maxlen (fst (auto_control s e a)) = maxlen s"
  by (simp add: auto_control_def auto_on_def auto_off_def switch_def Let_def
           split: prod.splits)

lemma cycle_buffer:
  assumes "cycle s e = Inr (s', out)"
  shows "maxlen s' = maxlen s
       \<and> (case csv_row out of
            None \<Rightarrow> power_buffer s' = power_buffer s
          | Some (p, avg_w, med_w, was_on, auto) \<Rightarrow>
              solaredge_power e = Some p
              \<and> observe (maxlen s) (power_buffer s) p = (power_buffer s', avg_w, med_w))"
proof (cases "\<not> auto_mode (control (cfg e)) \<and> manual_socket_state (control (cfg e)) \<noteq> None")
  case True
  then obtain m where m: "manual_socket_state (control (cfg e)) = Some m" by auto
  from True m assms cycle_manual [of e m s] manual_control_keeps_buffer [of s e m]
  show ?thesis by auto
next
  case False
  then have nm: "auto_mode (control (cfg e)) \<or> manual_socket_state (control (cfg e)) = None"
    by auto
  show ?thesis
  proof (cases "solaredge_power e")
    case None
    with nm assms cycle_no_sample [of e s] show ?thesis by (auto simp add: no_effects_def)
  next
    case (Some p)
    obtain buf avg_w med_w
      where ob: "observe (maxlen s) (power_buffer s) p = (buf, avg_w, med_w)"
      by (cases "observe (maxlen s) (power_buffer s) p") auto
    show ?thesis
    proof (cases "auto_mode (control (cfg e))")
      case False
      with nm Some ob assms cycle_idle [of e p s buf avg_w med_w] show ?thesis by auto
    next
      case auto: True
      show ?thesis
      proof (cases "is_night (night_mode (cfg e)) (now_time e)")
        case (Inl err)
        with auto Some assms cycle_night_error [of e p err s] show ?thesis by simp
      next
        case (Inr night)
        show ?thesis
        proof (cases night)
          case True
          with Inr auto Some ob assms cycle_night [of e p s buf avg_w med_w]
            night_control_keeps_buffer [of "s\<lparr>power_buffer := buf\<rparr>" e]
          show ?thesis by auto
        next
          case False
          with Inr auto Some ob assms cycle_automatic [of e p s buf avg_w med_w]
            auto_control_keeps_buffer [of "s\<lparr>power_buffer := buf\<rparr>" e avg_w]
          show ?thesis by auto
        qed
      qed
    qed
  qed
qed

lemma cycle_capacity:
  assumes "cycle s e = Inr (s', out)" and "length (power_buffer s) \<le> maxlen s"
  shows "maxlen s' = maxlen s \<and> length (power_buffer s') \<le> maxlen s'"
proof (cases "csv_row out")
  case None
  with cycle_buffer [OF assms(1)] assms(2) show ?thesis by simp
next
  case (Some row)
  obtain p avg_w med_w was_on auto where row: "row = (p, avg_w, med_w, was_on, auto)"
    by (cases row) auto
  with Some cycle_buffer [OF assms(1)]
  have m: "maxlen s' = maxlen s"
    and ob: "observe (maxlen s) (power_buffer s) p = (power_buffer s', avg_w, med_w)" by auto
  from ob have "power_buffer s' = deque_append (maxlen s) (power_buffer s) p"
    by (simp add: observe_def Let_def)
  with deque_append_length [OF assms(2), of p] m show ?thesis by simp
qed

lemma run_capacity:
  "run s es = Inr (s', outs) \<Longrightarrow> length (power_buffer s) \<le> maxlen s
     \<Longrightarrow> maxlen s' = maxlen s \<and> length (power_buffer s') \<le> maxlen s'"
proof (induction es arbitrary: s outs)
  case Nil
  then show ?case by simp
next
  case (Cons e es)
  from Cons.prems(1) obtain s1 out outs1 where c: "cycle s e = Inr (s1, out)"
    and r: "run s1 es = Inr (s', outs1)"
    by (auto split: sum.splits prod.splits)
  from cycle_capacity [OF c Cons.prems(2)]
  have m: "maxlen s1 = maxlen s" and l: "length (power_buffer s1) \<le> maxlen s1" by auto
  from Cons.IH [OF r l] m show ?case by simp
qed

lemma buffer_size_capacity:
  assumes "0 < sample_interval_s sc" and "sample_interval_s sc \<le> window_s sc"
  shows "\<exists>n. buffer_size sc = Inr n \<and> int n = window_s sc div sample_interval_s sc \<and> 1 \<le> n"
proof -
  have "0 < window_s sc div sample_interval_s sc"
    using assms pos_imp_zdiv_pos_iff [of "sample_interval_s sc" "window_s sc"] by blast
  then have "1 \<le> window_s sc div sample_interval_s sc" by simp
  then show ?thesis using assms by (simp add: buffer_size_def Let_def)
qed

lemma startup_capacity:
  assumes "startup cfile hue = Inr s0"
  shows "power_buffer s0 = []
       \<and> (\<exists>c. cfile = Parsed c \<and> buffer_size (sampling c) = Inr (maxlen s0))"
proof (cases cfile)
  case (Parsed c)
  with assms show ?thesis
    by (auto simp add: startup_def split: prod.splits sum.splits)
qed (use assms in \<open>simp_all add: startup_def\<close>)

lemma observe_nonempty:
  assumes "observe n buf p = (buf', avg_w, med_w)"
  shows "buf' = deque_append n buf p
       \<and> (0 < n \<longrightarrow> buf' \<noteq> [] \<and> avg_w = mean buf' \<and> med_w = median buf')"
proof -
  have b: "buf' = deque_append n buf p" using assms by (simp add: observe_def Let_def)
  have "0 < n \<longrightarrow> deque_append n buf p \<noteq> []"
    by (cases buf) (simp_all add: deque_append_def Let_def)
  with assms b show ?thesis by (auto simp add: observe_def Let_def)
qed

text \<open>
  C8. The deque is sized at startup to \<open>window_s div sample_interval_s\<close>, which is at
  least 1 when \<open>0 < sample_interval_s \<le> window_s\<close>. Whatever samples are appended, it
  never holds more than that many: after any sequence of appends it holds exactly the
  last \<open>n\<close> samples, a sample arriving at capacity evicts the oldest one, and over any
  run of the loop from startup the buffer stays within \<open>maxlen\<close>, which never changes.
  The mean and median an iteration logs are those of the deque after the append, that
  is, of the samples currently held.
\<close>

theorem rolling_window_capacity:
  "(0 < sample_interval_s sc \<and> sample_interval_s sc \<le> window_s sc
      \<longrightarrow> (\<exists>k. buffer_size sc = Inr k \<and> int k = window_s sc div sample_interval_s sc
               \<and> 1 \<le> k))
   \<and> length (foldl (deque_append n) [] xs) \<le> n
   \<and> foldl (deque_append n) [] xs = drop (length xs - n) xs
   \<and> (length buf = n \<and> 0 < n \<longrightarrow> deque_append n buf x = tl buf @ [x])
   \<and> (length buf < n \<longrightarrow> deque_append n buf x = buf @ [x])
   \<and> (startup cfile hue = Inr s0 \<and> run s0 es = Inr (s', outs)
      \<longrightarrow> length (power_buffer s') \<le> maxlen s' \<and> maxlen s' = maxlen s0
          \<and> (\<exists>c. cfile = Parsed c \<and> buffer_size (sampling c) = Inr (maxlen s0)))
   \<and> (cycle s e = Inr (s1, out) \<and> csv_row out = Some (p, avg_w, med_w, was_on, auto)
      \<longrightarrow> solaredge_power e = Some p
          \<and> power_buffer s1 = deque_append (maxlen s) (power_buffer s) p
          \<and> (0 < maxlen s
               \<longrightarrow> avg_w = mean (power_buffer s1) \<and> med_w = median (power_buffer s1)))"
proof (intro conjI impI)
  assume "0 < sample_interval_s sc \<and> sample_interval_s sc \<le> window_s sc"
  then show "\<exists>k. buffer_size sc = Inr k \<and> int k = window_s sc div sample_interval_s sc
               \<and> 1 \<le> k"
    using buffer_size_capacity [of sc] by simp
next
  have f: "foldl (deque_append n) [] xs = drop (length xs - n) xs"
    using foldl_deque_append [of "[]" n xs] by simp
  show "foldl (deque_append n) [] xs = drop (length xs - n) xs" by (rule f)
  show "length (foldl (deque_append n) [] xs) \<le> n" by (simp add: f)
next
  assume "length buf = n \<and> 0 < n"
  then have "length buf = n" and "buf \<noteq> []" by auto
  then show "deque_append n buf x = tl buf @ [x]"
    by (cases buf) (simp_all add: deque_append_def Let_def)
next
  assume "length buf < n"
  then show "deque_append n buf x = buf @ [x]"
    by (simp add: deque_append_def Let_def)
next
  assume h: "startup cfile hue = Inr s0 \<and> run s0 es = Inr (s', outs)"
  with startup_capacity [of cfile hue s0]
  have e: "power_buffer s0 = []"
    and c: "\<exists>c. cfile = Parsed c \<and> buffer_size (sampling c) = Inr (maxlen s0)" by auto
  from e have "length (power_buffer s0) \<le> maxlen s0" by simp
  with h run_capacity [of s0 es s' outs]
  have r: "maxlen s' = maxlen s0 \<and> length (power_buffer s') \<le> maxlen s'" by simp
  from r show "length (power_buffer s') \<le> maxlen s'" by simp
  from r show "maxlen s' = maxlen s0" by simp
  from c show "\<exists>c. cfile = Parsed c \<and> buffer_size (sampling c) = Inr (maxlen s0)" .
next
  assume h: "cycle s e = Inr (s1, out) \<and> csv_row out = Some (p, avg_w, med_w, was_on, auto)"
  with cycle_buffer [of s e s1 out]
  have sp: "solaredge_power e = Some p"
    and ob: "observe (maxlen s) (power_buffer s) p = (power_buffer s1, avg_w, med_w)"
    by auto
  from sp show "solaredge_power e = Some p" .
  from observe_nonempty [OF ob]
  show "power_buffer s1 = deque_append (maxlen s) (power_buffer s) p" by simp
  { assume "0 < maxlen s"
    with observe_nonempty [OF ob]
    show "avg_w = mean (power_buffer s1)" and "med_w = median (power_buffer s1)" by simp_all
  }
qed

theorem rolling_window_capacity_witness:
  "buffer_size \<lparr>window_s = 30, sample_interval_s = 10, require_stable_on_s = 30,
                require_stable_off_s = 0, min_on_time_s = 300\<rparr> = Inr 3
   \<and> foldl (deque_append 3) [] [2100, 2200, 2050, 2100, 100] = [2050, 2100, 100]
   \<and> deque_append 3 [2100, 2200, 2050] 2100 = [2200, 2050, 2100]
   \<and> deque_append 3 [2100] 2200 = [2100, 2200]
   \<and> cycle (sample_state [2100, 2200, 2050] (Some 1000) None None False)
         (sample_env sample_config (Some 2100) True 1030)
     = Inr (sample_state [2200, 2050, 2100] None None (Some 1030) True,
            \<lparr>requests = [True], csv_row = Some (2100, 6350 / 3, 2100, False, True)\<rparr>)
   \<and> mean [2200, 2050, 2100] = 6350 / 3 \<and> median [2200, 2050, 2100] = 2100
   \<and> startup (Parsed sample_config) (Some False) = Inr (sample_state [] None None None False)
   \<and> run (sample_state [] None None None False)
         [sample_env sample_config (Some 2100) True 1000]
     = Inr (sample_state [2100] (Some 1000) None None False,
            [\<lparr>requests = [], csv_row = Some (2100, 2100, 2100, False, True)\<rparr>])
   \<and> length (power_buffer (sample_state [2100] (Some 1000) None None False))
        \<le> maxlen (sample_state [2100] (Some 1000) None None False)"
proof -
  let ?init = "sample_state [] None None None False"
  let ?first = "sample_env sample_config (Some 2100) True 1000"
  let ?next = "sample_state [2100] (Some 1000) None None False"
  let ?row = "\<lparr>requests = [], csv_row = Some (2100, 2100, 2100, False, True)\<rparr>"
  note inst_run = rolling_window_capacity [of _ 3 "[]" "[]" 0 "Parsed sample_config"
      "Some False" ?init "[?first]" ?next "[?row]"]
  have "cycle ?init ?first = Inr (?next, ?row)" by (simp add: sample_eval)
  then have r: "run ?init [?first] = Inr (?next, [?row])" by simp
  with sample_startup
  have "startup (Parsed sample_config) (Some False) = Inr ?init
          \<and> run ?init [?first] = Inr (?next, [?row])" by simp
  with inst_run [THEN conjunct2, THEN conjunct2, THEN conjunct2, THEN conjunct2,
                 THEN conjunct2, THEN conjunct1]
  have "length (power_buffer ?next) \<le> maxlen ?next \<and> maxlen ?next = maxlen ?init
          \<and> (\<exists>c. Parsed sample_config = Parsed c
                 \<and> buffer_size (sampling c) = Inr (maxlen ?init))"
    by (rule mp)
  then have bounded: "length (power_buffer ?next) \<le> maxlen ?next" by simp
  let ?sc = "\<lparr>window_s = 30, sample_interval_s = 10, require_stable_on_s = 30,
                require_stable_off_s = 0, min_on_time_s = 300\<rparr>"
  let ?s = "sample_state [2100, 2200, 2050] (Some 1000) None None False"
  let ?e = "sample_env sample_config (Some 2100) True 1030"
  let ?t = "sample_state [2200, 2050, 2100] None None (Some 1030) True"
  let ?out = "\<lparr>requests = [True], csv_row = Some (2100, 6350 / 3, 2100, False, True)\<rparr>"
  note inst = rolling_window_capacity [of ?sc 3 "[2100, 2200, 2050, 2100, 100]"
      "[2100, 2200, 2050]" 2100 _ _ _ _ _ _ ?s ?e ?t ?out 2100 "6350 / 3" 2100 False True]
  note inst' = rolling_window_capacity [of ?sc 3 "[]" "[2100]" 2200]
  have c: "cycle ?s ?e = Inr (?t, ?out)" by (simp add: sample_eval)
  have "0 < sample_interval_s ?sc \<and> sample_interval_s ?sc \<le> window_s ?sc" by simp
  with inst [THEN conjunct1]
  have "\<exists>k. buffer_size ?sc = Inr k \<and> int k = window_s ?sc div sample_interval_s ?sc \<and> 1 \<le> k"
    by (rule mp)
  then have cap: "buffer_size ?sc = Inr 3" by auto
  have win: "foldl (deque_append 3) [] [2100, 2200, 2050, 2100, 100] = [2050, 2100, 100]"
    using inst [THEN conjunct2, THEN conjunct2, THEN conjunct1] by simp
  have "length [2100, 2200, 2050 :: real] = 3 \<and> 0 < (3 :: nat)" by simp
  with inst [THEN conjunct2, THEN conjunct2, THEN conjunct2, THEN conjunct1]
  have "deque_append 3 [2100, 2200, 2050] 2100 = tl [2100, 2200, 2050] @ [2100]"
    by (rule mp)
  then have full: "deque_append 3 [2100, 2200, 2050] 2100 = [2200, 2050, 2100]" by simp
  have "length [2100 :: real] < 3" by simp
  with inst' [THEN conjunct2, THEN conjunct2, THEN conjunct2, THEN conjunct2, THEN conjunct1]
  have "deque_append 3 [2100] 2200 = [2100] @ [2200]"
    by (rule mp)
  then have part: "deque_append 3 [2100] 2200 = [2100, 2200]" by simp
  have "cycle ?s ?e = Inr (?t, ?out)
          \<and> csv_row ?out = Some (2100, 6350 / 3, 2100, False, True)"
    using c by simp
  with inst [THEN conjunct2, THEN conjunct2, THEN conjunct2, THEN conjunct2,
             THEN conjunct2, THEN conjunct2]
  have "solaredge_power ?e = Some 2100
          \<and> power_buffer ?t = deque_append (maxlen ?s) (power_buffer ?s) 2100
          \<and> (0 < maxlen ?s
               \<longrightarrow> 6350 / 3 = mean (power_buffer ?t) \<and> 2100 = median (power_buffer ?t))"
    by (rule mp)
  moreover have "0 < maxlen ?s" and "power_buffer ?t = [2200, 2050, 2100]"
    by (simp_all add: sample_state_def)
  ultimately have stats: "mean [2200, 2050, 2100] = 6350 / 3"
    "median [2200, 2050, 2100] = 2100"
    by metis+
  from cap win full part c stats sample_startup r bounded show ?thesis by simp
qed

lemma imports_but_last:
  "import_from solar_charge_switch_names (butlast web_app_imports) = Inr ()"
  by (simp add: solar_charge_switch_names_def web_app_imports_def)

text \<open>
  C10. Loading \<^verbatim>\<open>web_app.py\<close> always ends in an \<^verbatim>\<open>ImportError\<close>, whether or not
  its third-party packages are installed: it imports \<^verbatim>\<open>cleanup_old_logs\<close> from
  \<^verbatim>\<open>solar_charge_switch\<close>, which binds every other imported name but not this one.
  No route is ever registered, so no endpoint runs, the log-cleanup endpoint included.
\<close>

theorem web_app_import_fails:
  "load_web_app flask_installed requests_installed = Inl ImportError
   \<and> ''cleanup_old_logs'' \<in> set web_app_imports
   \<and> ''cleanup_old_logs'' \<notin> set solar_charge_switch_names
   \<and> import_from solar_charge_switch_names (butlast web_app_imports) = Inr ()
   \<and> import_from solar_charge_switch_names web_app_imports = Inl ImportError
   \<and> \<not> endpoint_runs flask_installed requests_installed route
   \<and> (''/api/logs/cleanup'', ''POST'') \<in> set web_app_routes"
proof -
  have missing: "''cleanup_old_logs'' \<notin> set solar_charge_switch_names"
    by (simp add: solar_charge_switch_names_def)
  have wanted: "''cleanup_old_logs'' \<in> set web_app_imports"
    by (simp add: web_app_imports_def)
  have fails: "import_from solar_charge_switch_names web_app_imports = Inl ImportError"
    by (simp add: solar_charge_switch_names_def web_app_imports_def)
  have load: "load_web_app flask_installed requests_installed = Inl ImportError"
    by (simp add: load_web_app_def fails)
  have none: "\<not> endpoint_runs flask_installed requests_installed route"
    by (simp add: endpoint_runs_def load)
  have route: "(''/api/logs/cleanup'', ''POST'') \<in> set web_app_routes"
    by (simp add: web_app_routes_def)
  from missing wanted fails load none route imports_but_last show ?thesis by blast
qed










end
